theory Spec2Isabelle
  imports Complex_Main "HOL-Library.AList" "HOL-Library.Multiset"
begin

section \<open>Conventions\<close>

text \<open>
  The fetching core of the scraper: \<^verbatim>\<open>core_scraper/rate_limiter.py\<close>,
  \<^verbatim>\<open>core_scraper/proxy_handler.py\<close>, \<^verbatim>\<open>core_scraper/session_manager.py\<close>,
  \<^verbatim>\<open>core_scraper/async_session_manager.py\<close> and \<^verbatim>\<open>core_scraper/async_scraper.py\<close>.

  Python's \<^verbatim>\<open>int\<close> is \<open>int\<close>. Python's \<^verbatim>\<open>float\<close> (delays, rates, clock readings) is
  \<open>rat\<close>: the arithmetic is exact, rounding is not modelled. Every exception the source
  can raise is a value of \<open>py_error\<close>, returned as \<open>Inl\<close>; \<open>CancelledError\<close> is
  \<^verbatim>\<open>asyncio.CancelledError\<close>, the one among them that is a \<^verbatim>\<open>BaseException\<close> and not an
  \<^verbatim>\<open>Exception\<close>. The wall clock is an
  explicit argument: \<^verbatim>\<open>time.time()\<close> reads it and \<^verbatim>\<open>time.sleep(d)\<close> advances it by \<open>d\<close>.
\<close>

datatype py_error =
    ValueError
  | IndexError
  | TimeoutError
  | Exception string
  | CancelledError

section \<open>RateLimiter (core\_scraper/rate\_limiter.py)\<close>

record RateLimiter =
  requests_per_second :: rat
  burst_limit :: int
  min_interval :: rat
  last_request_time :: rat
  request_times :: "rat list"
  adaptive_mode :: bool
  current_delay :: rat
  success_count :: int
  failure_count :: int

text \<open>\<^verbatim>\<open>1.0 / requests_per_second if requests_per_second > 0 else 0\<close>\<close>

definition interval_of :: "rat \<Rightarrow> rat" where
  "interval_of rps = (if rps > 0 then 1 / rps else 0)"

text \<open>
  \<^verbatim>\<open>__init__\<close>. \<^verbatim>\<open>deque(maxlen=burst_limit * 2)\<close> raises ValueError for a negative
  maxlen.
\<close>

definition fresh_limiter :: "rat \<Rightarrow> int \<Rightarrow> RateLimiter" where
  "fresh_limiter rps bl =
     \<lparr> requests_per_second = rps,
       burst_limit = bl,
       min_interval = interval_of rps,
       last_request_time = 0,
       request_times = [],
       adaptive_mode = False,
       current_delay = interval_of rps,
       success_count = 0,
       failure_count = 0 \<rparr>"

definition RateLimiter_init :: "rat \<Rightarrow> int \<Rightarrow> py_error + RateLimiter" where
  "RateLimiter_init rps bl =
     (if bl * 2 < 0 then Inl ValueError else Inr (fresh_limiter rps bl))"

text \<open>\<^verbatim>\<open>time.sleep(d)\<close> at clock reading \<open>now\<close>: ValueError for a negative duration.\<close>

definition sleep :: "rat \<Rightarrow> rat \<Rightarrow> py_error + rat" where
  "sleep now d = (if d < 0 then Inl ValueError else Inr (now + d))"

text \<open>\<^verbatim>\<open>deque.append\<close> on a deque of bounded length: the oldest entries fall out.\<close>

definition deque_append :: "int \<Rightarrow> 'a list \<Rightarrow> 'a \<Rightarrow> 'a list" where
  "deque_append maxlen d x = (let d' = d @ [x] in drop (length d' - nat maxlen) d')"

text \<open>
  \<^verbatim>\<open>_update_burst_tracking\<close>: trims the entries older than one second from the front,
  appends the current reading, and sleeps half a second when the window holds
  \<^verbatim>\<open>burst_limit\<close> entries or more.
\<close>

definition update_burst_tracking :: "rat \<Rightarrow> RateLimiter \<Rightarrow> py_error + (rat \<times> RateLimiter)" where
  "update_burst_tracking now s =
     (let current_time = now;
          trimmed = dropWhile (\<lambda>t. current_time - t \<ge> 1) (request_times s);
          times = deque_append (burst_limit s * 2) trimmed current_time;
          s' = s\<lparr>request_times := times\<rparr>
      in if int (length times) \<ge> burst_limit s
         then (case sleep now (1 / 2) of Inl e \<Rightarrow> Inl e | Inr now' \<Rightarrow> Inr (now', s'))
         else Inr (now, s'))"

text \<open>
  \<^verbatim>\<open>wait\<close>, called at clock reading \<open>now\<close>; returns the clock reading at which it
  returns, and the limiter.
\<close>

definition wait :: "rat \<Rightarrow> RateLimiter \<Rightarrow> py_error + (rat \<times> RateLimiter)" where
  "wait now s =
     (let current_time = now;
          slept =
            (if adaptive_mode s then sleep now (current_delay s)
             else let time_since_last = current_time - last_request_time s
                  in if time_since_last < min_interval s
                     then sleep now (min_interval s - time_since_last)
                     else Inr now)
      in case slept of
           Inl e \<Rightarrow> Inl e
         | Inr t1 \<Rightarrow>
             (case update_burst_tracking t1 s of
                Inl e \<Rightarrow> Inl e
              | Inr (t2, s') \<Rightarrow> Inr (t2, s'\<lparr>last_request_time := t2\<rparr>)))"

definition enable_adaptive_mode :: "RateLimiter \<Rightarrow> RateLimiter" where
  "enable_adaptive_mode s = s\<lparr>adaptive_mode := True\<rparr>"

definition disable_adaptive_mode :: "RateLimiter \<Rightarrow> RateLimiter" where
  "disable_adaptive_mode s = s\<lparr>adaptive_mode := False, current_delay := min_interval s\<rparr>"

definition report_success :: "RateLimiter \<Rightarrow> RateLimiter" where
  "report_success s =
     (if adaptive_mode s then
        (let s1 = s\<lparr>success_count := success_count s + 1\<rparr>
         in if success_count s1 \<ge> 5
            then s1\<lparr>current_delay := max (min_interval s1) (current_delay s1 * (9 / 10)),
                    success_count := 0\<rparr>
            else s1)
      else s)"

definition report_failure :: "int option \<Rightarrow> RateLimiter \<Rightarrow> RateLimiter" where
  "report_failure status_code s =
     (if adaptive_mode s then
        (let s1 = s\<lparr>failure_count := failure_count s + 1\<rparr>;
             s2 = (if status_code = Some 429 then s1\<lparr>current_delay := current_delay s1 * 2\<rparr>
                   else if status_code \<in> Some ` set [503, 502, 504]
                   then s1\<lparr>current_delay := current_delay s1 * (3 / 2)\<rparr>
                   else s1\<lparr>current_delay := current_delay s1 * (6 / 5)\<rparr>);
             s3 = s2\<lparr>current_delay := min (current_delay s2) 30\<rparr>
         in s3\<lparr>success_count := 0\<rparr>)
      else s)"

definition set_rate :: "rat \<Rightarrow> RateLimiter \<Rightarrow> RateLimiter" where
  "set_rate rps s =
     (let s1 = s\<lparr>requests_per_second := rps, min_interval := interval_of rps\<rparr>
      in if \<not> adaptive_mode s1 then s1\<lparr>current_delay := min_interval s1\<rparr> else s1)"

text \<open>
  A caller issuing \<^verbatim>\<open>wait()\<close> calls one after the other: before the k-th call the
  caller spends \<open>gaps ! k\<close> seconds on its own work. The result is the clock reading
  when the last call returns.
\<close>

fun sequential_waits :: "rat list \<Rightarrow> rat \<Rightarrow> RateLimiter \<Rightarrow> py_error + (rat \<times> RateLimiter)" where
  "sequential_waits [] now s = Inr (now, s)"
| "sequential_waits (g # gs) now s =
     (case wait (now + g) s of
        Inl e \<Rightarrow> Inl e
      | Inr (now', s') \<Rightarrow> sequential_waits gs now' s')"

section \<open>ProxyHandler (core\_scraper/proxy\_handler.py)\<close>

record ProxyHandler =
  proxy_list :: "string list"
  working_proxies :: "string list"
  failed_proxies :: "string list"
  last_validation :: rat
  validation_interval :: rat

text \<open>
  The connectivity probe of a validation pass, \<^verbatim>\<open>requests.get(test_url, proxies=...)\<close>:
  the \<open>i\<close>-th request of the pass, sent through proxy \<open>p\<close>, answers with a status code
  or raises (\<open>None\<close>). The network decides each answer, so the probe is an argument.
\<close>

type_synonym probe = "nat \<Rightarrow> string \<Rightarrow> int option"

text \<open>The \<^verbatim>\<open>for proxy in self.proxy_list\<close> loop of \<^verbatim>\<open>_validate_proxies\<close>.\<close>

fun validate_loop :: "probe \<Rightarrow> nat \<Rightarrow> string list \<Rightarrow> string list \<times> string list
    \<Rightarrow> string list \<times> string list" where
  "validate_loop pr i [] (working, failed) = (working, failed)"
| "validate_loop pr i (proxy # rest) (working, failed) =
     (case pr i proxy of
        Some status \<Rightarrow>
          if status = 200 then validate_loop pr (Suc i) rest (working @ [proxy], failed)
          else validate_loop pr (Suc i) rest (working, failed @ [proxy])
      | None \<Rightarrow> validate_loop pr (Suc i) rest (working, failed @ [proxy]))"

definition validate_proxies :: "probe \<Rightarrow> rat \<Rightarrow> ProxyHandler \<Rightarrow> ProxyHandler" where
  "validate_proxies pr now s =
     (case validate_loop pr 0 (proxy_list s) ([], []) of
        (working, failed) \<Rightarrow>
          s\<lparr>working_proxies := working, failed_proxies := failed, last_validation := now\<rparr>)"

text \<open>\<^verbatim>\<open>__init__\<close>: \<^verbatim>\<open>proxy_list or []\<close>, and a first validation pass when the list is not empty.\<close>

definition ProxyHandler_init :: "probe \<Rightarrow> rat \<Rightarrow> string list option \<Rightarrow> ProxyHandler" where
  "ProxyHandler_init pr now given =
     (let s = \<lparr> proxy_list = (case given of None \<Rightarrow> [] | Some l \<Rightarrow> l),
                 working_proxies = [],
                 failed_proxies = [],
                 last_validation = 0,
                 validation_interval = 300 \<rparr>
      in if proxy_list s \<noteq> [] then validate_proxies pr now s else s)"

definition add_proxy :: "string \<Rightarrow> ProxyHandler \<Rightarrow> ProxyHandler" where
  "add_proxy proxy s =
     (if proxy \<notin> set (proxy_list s) then s\<lparr>proxy_list := proxy_list s @ [proxy]\<rparr> else s)"

text \<open>\<^verbatim>\<open>random.choice(seq)\<close>: IndexError on an empty sequence; \<open>rnd\<close> is the random draw.\<close>

definition random_choice :: "nat \<Rightarrow> 'a list \<Rightarrow> py_error + 'a" where
  "random_choice rnd xs = (if xs = [] then Inl IndexError else Inr (xs ! (rnd mod length xs)))"

text \<open>
  \<^verbatim>\<open>get_proxy\<close> at clock reading \<open>now\<close>. The handler is returned beside the result: a
  validation pass that ran stays in effect when the call raises afterwards.
\<close>

definition get_proxy :: "probe \<Rightarrow> rat \<Rightarrow> nat \<Rightarrow> ProxyHandler
    \<Rightarrow> (py_error + (string \<times> string) list option) \<times> ProxyHandler" where
  "get_proxy pr now rnd s =
     (if working_proxies s = [] then (Inr None, s)
      else
        let current_time = now;
            s1 = (if current_time - last_validation s > validation_interval s
                  then validate_proxies pr now s else s)
        in case random_choice rnd (working_proxies s1) of
             Inl e \<Rightarrow> (Inl e, s1)
           | Inr proxy \<Rightarrow> (Inr (Some [(''http'', proxy), (''https'', proxy)]), s1))"

text \<open>\<^verbatim>\<open>remove_proxy\<close>: \<^verbatim>\<open>list.remove\<close> deletes the first occurrence.\<close>

definition remove_proxy :: "string \<Rightarrow> ProxyHandler \<Rightarrow> ProxyHandler" where
  "remove_proxy proxy s =
     (let s1 = (if proxy \<in> set (proxy_list s)
                then s\<lparr>proxy_list := remove1 proxy (proxy_list s)\<rparr> else s);
          s2 = (if proxy \<in> set (working_proxies s1)
                then s1\<lparr>working_proxies := remove1 proxy (working_proxies s1)\<rparr> else s1)
      in if proxy \<in> set (failed_proxies s2)
         then s2\<lparr>failed_proxies := remove1 proxy (failed_proxies s2)\<rparr> else s2)"

definition force_validation :: "probe \<Rightarrow> rat \<Rightarrow> ProxyHandler \<Rightarrow> ProxyHandler" where
  "force_validation pr now s = validate_proxies pr now s"

text \<open>The operations a client can apply to a constructed pool, and a run of them.\<close>

datatype proxy_op =
    AddProxy string
  | RemoveProxy string
  | ForceValidation probe rat
  | GetProxy probe rat nat

fun apply_proxy_op :: "ProxyHandler \<Rightarrow> proxy_op \<Rightarrow> ProxyHandler" where
  "apply_proxy_op s (AddProxy p) = add_proxy p s"
| "apply_proxy_op s (RemoveProxy p) = remove_proxy p s"
| "apply_proxy_op s (ForceValidation pr now) = force_validation pr now s"
| "apply_proxy_op s (GetProxy pr now rnd) = snd (get_proxy pr now rnd s)"

definition run_proxy_ops :: "proxy_op list \<Rightarrow> ProxyHandler \<Rightarrow> ProxyHandler" where
  "run_proxy_ops ops s = foldl apply_proxy_op s ops"

text \<open>
  The invariant of the pool: each partition, counted with multiplicity, is part of the
  base pool.
\<close>

definition pool_inv :: "ProxyHandler \<Rightarrow> bool" where
  "pool_inv s \<longleftrightarrow> mset (working_proxies s) \<subseteq># mset (proxy_list s)
                \<and> mset (failed_proxies s) \<subseteq># mset (proxy_list s)"

section \<open>SessionManager (core\_scraper/session\_manager.py)\<close>

text \<open>
  A pooled client handle (\<^verbatim>\<open>requests.Session\<close>, \<^verbatim>\<open>aiohttp.ClientSession\<close> or its
  connector). All the managers do with a handle is close it: \<open>close_raises\<close> is the
  message of the exception its \<^verbatim>\<open>close()\<close> raises, if it raises.
\<close>

record handle =
  close_raises :: "string option"
  closed :: bool

definition close_handle :: "handle \<Rightarrow> py_error + handle" where
  "close_handle h =
     (case close_raises h of Some msg \<Rightarrow> Inl (Exception msg) | None \<Rightarrow> Inr (h\<lparr>closed := True\<rparr>))"

text \<open>One entry of \<^verbatim>\<open>session_stats\<close>.\<close>

record session_stat =
  requests_made :: int
  failures :: int
  avg_response_time :: rat
  last_failure_time :: "rat option"
  consecutive_failures :: int
  created_at :: rat

text \<open>
  \<^verbatim>\<open>session_stats\<close> is a \<^verbatim>\<open>defaultdict\<close>: reading a missing key yields (and stores) the
  default entry, stamped with the current clock reading.
\<close>

definition default_stat :: "rat \<Rightarrow> session_stat" where
  "default_stat now =
     \<lparr> requests_made = 0, failures = 0, avg_response_time = 0, last_failure_time = None,
       consecutive_failures = 0, created_at = now \<rparr>"

definition stat_of :: "rat \<Rightarrow> (string \<times> session_stat) list \<Rightarrow> string \<Rightarrow> session_stat" where
  "stat_of now table session_id =
     (case map_of table session_id of Some st \<Rightarrow> st | None \<Rightarrow> default_stat now)"

text \<open>
  The manager. The dictionaries are association lists in insertion order. The field
  \<^verbatim>\<open>default_session\<close>, a second reference to \<^verbatim>\<open>sessions['default']\<close>, and the
  semaphore of the async manager are left out: the calls are modelled one at a time.
  \<^verbatim>\<open>AsyncSessionManager\<close> has the same fields and two more.
\<close>

record SessionManager =
  max_connections :: int
  max_retries :: int
  sessions :: "(string \<times> handle) list"
  session_stats :: "(string \<times> session_stat) list"
  global_failure_rate :: rat
  last_stats_update :: rat

record AsyncSessionManager = SessionManager +
  concurrent_limit :: int
  connector_cache :: "(string \<times> handle) list"

definition SessionManager_init :: "int \<Rightarrow> int \<Rightarrow> rat \<Rightarrow> SessionManager" where
  "SessionManager_init max_conn retries now =
     \<lparr> max_connections = max_conn, max_retries = retries, sessions = [], session_stats = [],
       global_failure_rate = 0, last_stats_update = now \<rparr>"

definition calculate_adaptive_retries :: "SessionManager \<Rightarrow> int" where
  "calculate_adaptive_retries m =
     (if global_failure_rate m < 1 / 10 then max 1 (max_retries m - 1)
      else if global_failure_rate m < 3 / 10 then max_retries m
      else min (max_retries m + 2) 10)"

definition calculate_adaptive_backoff :: "SessionManager \<Rightarrow> rat" where
  "calculate_adaptive_backoff m =
     (if global_failure_rate m < 1 / 10 then 1 / 2
      else if global_failure_rate m < 3 / 10 then 1
      else 2)"

text \<open>\<^verbatim>\<open>get_session\<close>; \<open>new\<close> is the handle \<^verbatim>\<open>_create_session\<close> builds.\<close>

definition get_session :: "handle \<Rightarrow> rat \<Rightarrow> string \<Rightarrow> SessionManager \<Rightarrow> SessionManager" where
  "get_session new now session_id m =
     (if session_id \<notin> fst ` set (sessions m)
      then m\<lparr>sessions := AList.update session_id new (sessions m),
             session_stats := AList.update session_id
                ((stat_of now (session_stats m) session_id)\<lparr>created_at := now\<rparr>)
                (session_stats m)\<rparr>
      else m)"

definition update_global_failure_rate :: "SessionManager \<Rightarrow> SessionManager" where
  "update_global_failure_rate m =
     (let total_requests = sum_list (map (\<lambda>(k, st). requests_made st) (session_stats m));
          total_failures = sum_list (map (\<lambda>(k, st). failures st) (session_stats m))
      in if total_requests > 0
         then m\<lparr>global_failure_rate := of_int total_failures / of_int total_requests\<rparr>
         else m\<lparr>global_failure_rate := 0\<rparr>)"

text \<open>
  The response hook \<^verbatim>\<open>_monitor_response\<close>, run at clock reading \<open>now\<close>: \<open>elapsed\<close> is
  \<^verbatim>\<open>response.elapsed.total_seconds()\<close> when the response has it.
\<close>

record response =
  status_code :: int
  elapsed :: "rat option"

definition monitor_response :: "rat \<Rightarrow> response \<Rightarrow> string \<Rightarrow> SessionManager \<Rightarrow> SessionManager" where
  "monitor_response now r session_id m =
     (let st0 = stat_of now (session_stats m) session_id;
          st1 = st0\<lparr>requests_made := requests_made st0 + 1\<rparr>;
          st2 = (case elapsed r of
                   None \<Rightarrow> st1
                 | Some response_time \<Rightarrow>
                     if avg_response_time st1 = 0 then st1\<lparr>avg_response_time := response_time\<rparr>
                     else st1\<lparr>avg_response_time :=
                                7 / 10 * avg_response_time st1 + 3 / 10 * response_time\<rparr>);
          st3 = (if status_code r \<ge> 400
                 then st2\<lparr>failures := failures st2 + 1,
                          last_failure_time := Some now,
                          consecutive_failures := consecutive_failures st2 + 1\<rparr>
                 else st2\<lparr>consecutive_failures := 0\<rparr>);
          m1 = m\<lparr>session_stats := AList.update session_id st3 (session_stats m)\<rparr>
      in if now - last_stats_update m1 > 60
         then (update_global_failure_rate m1)\<lparr>last_stats_update := now\<rparr>
         else m1)"

text \<open>\<^verbatim>\<open>get_health_status\<close> recomputes the rate before it reports; only that effect is kept.\<close>

definition get_health_status :: "SessionManager \<Rightarrow> SessionManager" where
  "get_health_status m = update_global_failure_rate m"

text \<open>
  \<^verbatim>\<open>close_all\<close>: closes the handles in order and clears the dictionary. An exception
  from a \<^verbatim>\<open>close()\<close> leaves the loop and the method; the handles closed before it stay
  closed and the dictionary is not cleared.
\<close>

fun close_each :: "(string \<times> handle) list \<Rightarrow> py_error option \<times> (string \<times> handle) list" where
  "close_each [] = (None, [])"
| "close_each ((k, h) # rest) =
     (case close_handle h of
        Inl e \<Rightarrow> (Some e, (k, h) # rest)
      | Inr h' \<Rightarrow> (case close_each rest of (r, rest') \<Rightarrow> (r, (k, h') # rest')))"

definition close_all :: "SessionManager \<Rightarrow> py_error option \<times> SessionManager" where
  "close_all m =
     (case close_each (sessions m) of
        (Some e, hs) \<Rightarrow> (Some e, m\<lparr>sessions := hs\<rparr>)
      | (None, hs) \<Rightarrow> (None, m\<lparr>sessions := []\<rparr>))"

text \<open>The monitoring events of a synchronous manager, and a run of them.\<close>

datatype sync_event =
    MonitorResponse rat response string
  | GetHealthStatus

fun apply_sync_event :: "SessionManager \<Rightarrow> sync_event \<Rightarrow> SessionManager" where
  "apply_sync_event m (MonitorResponse now r session_id) = monitor_response now r session_id m"
| "apply_sync_event m GetHealthStatus = get_health_status m"

section \<open>AsyncSessionManager (core\_scraper/async\_session\_manager.py)\<close>

text \<open>The fields \<^verbatim>\<open>__init__\<close> assigns.\<close>

definition AsyncSessionManager_init :: "int \<Rightarrow> int \<Rightarrow> int \<Rightarrow> rat \<Rightarrow> AsyncSessionManager" where
  "AsyncSessionManager_init max_conn retries limit now =
     \<lparr> max_connections = max_conn, max_retries = retries, sessions = [], session_stats = [],
       global_failure_rate = 0, last_stats_update = now,
       concurrent_limit = limit, connector_cache = [] \<rparr>"

text \<open>
  The constructor call: \<^verbatim>\<open>asyncio.Semaphore(concurrent_limit)\<close> raises ValueError for a
  negative limit.
\<close>

definition AsyncSessionManager_new ::
    "int \<Rightarrow> int \<Rightarrow> int \<Rightarrow> rat \<Rightarrow> py_error + AsyncSessionManager" where
  "AsyncSessionManager_new max_conn retries limit now =
     (if limit < 0 then Inl ValueError
      else Inr (AsyncSessionManager_init max_conn retries limit now))"

definition async_calculate_adaptive_retries :: "AsyncSessionManager \<Rightarrow> int" where
  "async_calculate_adaptive_retries m =
     (if global_failure_rate m < 1 / 10 then max 1 (max_retries m - 1)
      else if global_failure_rate m < 3 / 10 then max_retries m
      else min (max_retries m + 2) 10)"

definition async_calculate_adaptive_backoff :: "AsyncSessionManager \<Rightarrow> rat" where
  "async_calculate_adaptive_backoff m =
     (if global_failure_rate m < 1 / 10 then 3 / 10
      else if global_failure_rate m < 3 / 10 then 1 / 2
      else 1)"

text \<open>
  \<^verbatim>\<open>get_session\<close> with \<^verbatim>\<open>_create_async_session\<close>; \<open>new\<close> is the pair of the client
  session and the connector it is built on.
\<close>

definition async_get_session ::
    "handle \<times> handle \<Rightarrow> rat \<Rightarrow> string \<Rightarrow> AsyncSessionManager \<Rightarrow> AsyncSessionManager" where
  "async_get_session new now session_id m =
     (if session_id \<notin> fst ` set (sessions m)
      then m\<lparr>connector_cache := AList.update session_id (snd new) (connector_cache m),
             sessions := AList.update session_id (fst new) (sessions m),
             session_stats := AList.update session_id
                ((stat_of now (session_stats m) session_id)\<lparr>created_at := now\<rparr>)
                (session_stats m)\<rparr>
      else m)"

definition async_update_global_failure_rate :: "AsyncSessionManager \<Rightarrow> AsyncSessionManager" where
  "async_update_global_failure_rate m =
     (let total_requests = sum_list (map (\<lambda>(k, st). requests_made st) (session_stats m));
          total_failures = sum_list (map (\<lambda>(k, st). failures st) (session_stats m))
      in if total_requests > 0
         then m\<lparr>global_failure_rate := of_int total_failures / of_int total_requests\<rparr>
         else m\<lparr>global_failure_rate := 0\<rparr>)"

text \<open>\<^verbatim>\<open>_monitor_response(response, session_id, response_time)\<close> with \<^verbatim>\<open>response.status\<close>.\<close>

definition async_monitor_response ::
    "rat \<Rightarrow> int \<Rightarrow> string \<Rightarrow> rat \<Rightarrow> AsyncSessionManager \<Rightarrow> AsyncSessionManager" where
  "async_monitor_response now status session_id response_time m =
     (let st0 = stat_of now (session_stats m) session_id;
          st1 = st0\<lparr>requests_made := requests_made st0 + 1\<rparr>;
          st2 = (if avg_response_time st1 = 0 then st1\<lparr>avg_response_time := response_time\<rparr>
                 else st1\<lparr>avg_response_time :=
                            7 / 10 * avg_response_time st1 + 3 / 10 * response_time\<rparr>);
          st3 = (if status \<ge> 400
                 then st2\<lparr>failures := failures st2 + 1,
                          last_failure_time := Some now,
                          consecutive_failures := consecutive_failures st2 + 1\<rparr>
                 else st2\<lparr>consecutive_failures := 0\<rparr>);
          m1 = m\<lparr>session_stats := AList.update session_id st3 (session_stats m)\<rparr>
      in if now - last_stats_update m1 > 30
         then (async_update_global_failure_rate m1)\<lparr>last_stats_update := now\<rparr>
         else m1)"

text \<open>\<^verbatim>\<open>_monitor_failure(session_id, error)\<close>\<close>

definition monitor_failure ::
    "rat \<Rightarrow> string \<Rightarrow> string \<Rightarrow> AsyncSessionManager \<Rightarrow> AsyncSessionManager" where
  "monitor_failure now session_id err m =
     (let st0 = stat_of now (session_stats m) session_id;
          st1 = st0\<lparr>failures := failures st0 + 1,
                    last_failure_time := Some now,
                    consecutive_failures := consecutive_failures st0 + 1\<rparr>;
          m1 = m\<lparr>session_stats := AList.update session_id st1 (session_stats m)\<rparr>
      in async_update_global_failure_rate m1)"

text \<open>
  What one pass through the \<^verbatim>\<open>try\<close> of \<^verbatim>\<open>make_request\<close> can raise:
  \<^verbatim>\<open>asyncio.TimeoutError\<close>; another instance of \<^verbatim>\<open>Exception\<close>, with its message
  \<^verbatim>\<open>str(e)\<close> and the clock reading at which it is raised; or \<^verbatim>\<open>asyncio.CancelledError\<close>,
  which neither \<^verbatim>\<open>except\<close> clause catches.
\<close>

datatype failure =
    TimesOut
  | Fails string rat
  | Cancelled

text \<open>
  One dispatch of \<^verbatim>\<open>session.request(method, url, **kwargs)\<close>, as the transport decides
  it. \<open>Responds status final_url t\<close>: the response arrives at clock reading \<open>t\<close> with
  \<^verbatim>\<open>response.status\<close> and \<^verbatim>\<open>str(response.url)\<close>, and its body is read.
  \<open>BodyFails status t f\<close>: the response arrives, and \<^verbatim>\<open>response.text()\<close> raises \<open>f\<close>.
  \<open>RequestFails f\<close>: the request itself raises \<open>f\<close>. The transport is asked by the
  number of dispatches made before.
\<close>

datatype attempt =
    Responds int string rat
  | BodyFails int rat failure
  | RequestFails failure

record request_result =
  result_status_code :: int
  result_url :: string
  result_response_time :: rat

text \<open>
  The body of the \<^verbatim>\<open>try\<close>: \<^verbatim>\<open>_monitor_response\<close> runs as soon as the response has
  arrived, before the body is read. The result is the dictionary returned or the
  exception raised, and the manager at that point.
\<close>

definition try_request ::
    "rat \<Rightarrow> string \<Rightarrow> attempt \<Rightarrow> AsyncSessionManager
       \<Rightarrow> (failure + request_result) \<times> AsyncSessionManager" where
  "try_request start_time session_id a m =
     (case a of
        Responds status final_url t \<Rightarrow>
          (Inr \<lparr> result_status_code = status, result_url = final_url,
                 result_response_time = t - start_time \<rparr>,
           async_monitor_response t status session_id (t - start_time) m)
      | BodyFails status t f \<Rightarrow>
          (Inl f, async_monitor_response t status session_id (t - start_time) m)
      | RequestFails f \<Rightarrow> (Inl f, m))"

text \<open>\<^verbatim>\<open>str(i)\<close> for a Python \<^verbatim>\<open>int\<close>, as the f-string of the last \<^verbatim>\<open>raise\<close> formats it.\<close>

definition digit_char :: "nat \<Rightarrow> char" where
  "digit_char d = ''0123456789'' ! d"

function str_nat :: "nat \<Rightarrow> string" where
  "str_nat n = (if n < 10 then [digit_char n] else str_nat (n div 10) @ [digit_char (n mod 10)])"
  by pat_completeness auto
termination
  by (relation "measure (\<lambda>n. n)") auto

declare str_nat.simps [simp del]

definition str_int :: "int \<Rightarrow> string" where
  "str_int i = (if i < 0 then CHR ''-'' # str_nat (nat (- i)) else str_nat (nat i))"

text \<open>
  The \<^verbatim>\<open>while retries <= adaptive_retries\<close> loop of \<^verbatim>\<open>make_request\<close> with its two
  \<^verbatim>\<open>except\<close> clauses. Beside the result and the manager it returns the number of
  dispatches and the backoff sleeps, in order.
\<close>

function request_loop ::
    "(nat \<Rightarrow> attempt) \<Rightarrow> rat \<Rightarrow> string \<Rightarrow> string \<Rightarrow> int \<Rightarrow> int \<Rightarrow> nat \<Rightarrow> rat list
       \<Rightarrow> AsyncSessionManager
       \<Rightarrow> (py_error + request_result) \<times> nat \<times> rat list \<times> AsyncSessionManager" where
  "request_loop transport start_time session_id url adaptive_retries retries n slept m =
     (if retries \<le> adaptive_retries then
        (case try_request start_time session_id (transport n) m of
           (Inr response_data, m1) \<Rightarrow> (Inr response_data, Suc n, slept, m1)
         | (Inl TimesOut, m1) \<Rightarrow>
             if retries + 1 \<le> adaptive_retries
             then request_loop transport start_time session_id url adaptive_retries
                    (retries + 1) (Suc n)
                    (slept @ [2 ^ nat (retries + 1) * async_calculate_adaptive_backoff m1]) m1
             else (Inl TimeoutError, Suc n, slept, m1)
         | (Inl (Fails msg t), m1) \<Rightarrow>
             if retries + 1 \<le> adaptive_retries
             then request_loop transport start_time session_id url adaptive_retries
                    (retries + 1) (Suc n)
                    (slept @ [2 ^ nat (retries + 1) * async_calculate_adaptive_backoff m1]) m1
             else (Inl (Exception msg), Suc n, slept, monitor_failure t session_id msg m1)
         | (Inl Cancelled, m1) \<Rightarrow> (Inl CancelledError, Suc n, slept, m1))
      else (Inl (Exception (''Max retries ('' @ str_int adaptive_retries
                              @ '') exceeded for '' @ url)), n, slept, m))"
  by pat_completeness auto
termination
  by (relation "measure (\<lambda>(transport, start_time, session_id, url, adaptive_retries, retries,
        n, slept, m). nat (adaptive_retries + 1 - retries))") auto

declare request_loop.simps [simp del]

text \<open>
  \<^verbatim>\<open>make_request\<close>. The calls are modelled one at a time, so at \<^verbatim>\<open>async with
  self.semaphore\<close> the semaphore holds its initial value \<^verbatim>\<open>concurrent_limit\<close>: with a
  value of 0 (the constructor refuses a negative one) the call waits for a slot that
  nothing releases and never returns, which is the result \<open>None\<close>.
\<close>

definition make_request ::
    "handle \<times> handle \<Rightarrow> (nat \<Rightarrow> attempt) \<Rightarrow> rat \<Rightarrow> string \<Rightarrow> string \<Rightarrow> AsyncSessionManager
       \<Rightarrow> ((py_error + request_result) \<times> nat \<times> rat list \<times> AsyncSessionManager) option" where
  "make_request new transport now session_id url m =
     (if concurrent_limit m \<le> 0 then None
      else
        Some (let m1 = async_get_session new now session_id m;
                  start_time = now;
                  adaptive_retries = async_calculate_adaptive_retries m1
              in request_loop transport start_time session_id url adaptive_retries 0 0 [] m1))"

definition attempts_made :: "'r \<times> nat \<times> 'x \<Rightarrow> nat" where
  "attempts_made out = fst (snd out)"

text \<open>
  \<^verbatim>\<open>close_all\<close>: every \<^verbatim>\<open>close()\<close> stands in \<^verbatim>\<open>try: ... except Exception: pass\<close>, for
  the sessions and then for the connectors; both dictionaries are cleared.
\<close>

definition close_quietly :: "handle \<Rightarrow> py_error option \<times> handle" where
  "close_quietly h = (case close_handle h of Inl e \<Rightarrow> (None, h) | Inr h' \<Rightarrow> (None, h'))"

fun close_each_quietly ::
    "(string \<times> handle) list \<Rightarrow> py_error option \<times> (string \<times> handle) list" where
  "close_each_quietly [] = (None, [])"
| "close_each_quietly ((k, h) # rest) =
     (case close_quietly h of
        (Some e, h') \<Rightarrow> (Some e, (k, h') # rest)
      | (None, h') \<Rightarrow> (case close_each_quietly rest of (r, rest') \<Rightarrow> (r, (k, h') # rest')))"

definition async_close_all :: "AsyncSessionManager \<Rightarrow> py_error option \<times> AsyncSessionManager" where
  "async_close_all m =
     (case close_each_quietly (sessions m) of
        (Some e, hs) \<Rightarrow> (Some e, m\<lparr>sessions := hs\<rparr>)
      | (None, hs) \<Rightarrow>
          (case close_each_quietly (connector_cache m) of
             (Some e, cs) \<Rightarrow> (Some e, m\<lparr>sessions := hs, connector_cache := cs\<rparr>)
           | (None, cs) \<Rightarrow> (None, m\<lparr>sessions := [], connector_cache := []\<rparr>)))"

text \<open>The monitoring events of an async manager, and a run of them.\<close>

datatype async_event =
    AsyncMonitorResponse rat int string rat
  | MonitorFailure rat string string
  | GetPerformanceStats

fun apply_async_event :: "AsyncSessionManager \<Rightarrow> async_event \<Rightarrow> AsyncSessionManager" where
  "apply_async_event m (AsyncMonitorResponse now status session_id response_time) =
     async_monitor_response now status session_id response_time m"
| "apply_async_event m (MonitorFailure now session_id err) = monitor_failure now session_id err m"
| "apply_async_event m GetPerformanceStats = async_update_global_failure_rate m"

text \<open>
  What a dispatch raises, if it raises, and the exception the caller of \<^verbatim>\<open>make_request\<close>
  sees for it.
\<close>

fun attempt_failure :: "attempt \<Rightarrow> failure option" where
  "attempt_failure (Responds status final_url t) = None"
| "attempt_failure (BodyFails status t f) = Some f"
| "attempt_failure (RequestFails f) = Some f"

fun failure_error :: "failure \<Rightarrow> py_error" where
  "failure_error TimesOut = TimeoutError"
| "failure_error (Fails msg t) = Exception msg"
| "failure_error Cancelled = CancelledError"

text \<open>
  A transport that fails on every attempt: every dispatch raises a timeout or another
  instance of \<^verbatim>\<open>Exception\<close>.
\<close>

definition always_fails :: "(nat \<Rightarrow> attempt) \<Rightarrow> bool" where
  "always_fails transport \<longleftrightarrow>
     (\<forall>n. attempt_failure (transport n) \<noteq> None \<and> attempt_failure (transport n) \<noteq> Some Cancelled)"

text \<open>The manager a \<^verbatim>\<open>make_request\<close> call leaves behind.\<close>

definition manager_after :: "'r \<times> nat \<times> 'x \<times> 'm \<Rightarrow> 'm" where
  "manager_after out = snd (snd (snd out))"

text \<open>
  The invariant of the synchronous manager's statistics: in every entry the failures
  are between 0 and the requests, and the stored rate is between 0 and 1.
\<close>

definition stat_ok :: "session_stat \<Rightarrow> bool" where
  "stat_ok st \<longleftrightarrow> 0 \<le> failures st \<and> failures st \<le> requests_made st"

definition sync_inv :: "SessionManager \<Rightarrow> bool" where
  "sync_inv m \<longleftrightarrow> list_all (\<lambda>(k, st). stat_ok st) (session_stats m)
                \<and> 0 \<le> global_failure_rate m \<and> global_failure_rate m \<le> 1"

section \<open>AsyncBongoCat (core\_scraper/async\_scraper.py)\<close>

text \<open>
  What a coroutine of the scraper can raise: an instance of \<^verbatim>\<open>Exception\<close>, of which the
  scraper uses only the message \<^verbatim>\<open>str(e)\<close>, or \<^verbatim>\<open>asyncio.CancelledError\<close>, which is a
  \<^verbatim>\<open>BaseException\<close> and not an \<^verbatim>\<open>Exception\<close>: \<^verbatim>\<open>except Exception\<close> does not catch it
  and \<^verbatim>\<open>isinstance(e, Exception)\<close> is false for it.
\<close>

datatype task_exception =
    ExceptionWith string
  | CancelledTask

text \<open>What awaiting a coroutine gives: a value or an exception.\<close>

datatype 'a task_outcome =
    Returned 'a
  | Raised task_exception

text \<open>
  The entries of the list \<^verbatim>\<open>scrape_multiple\<close> returns. The result dictionaries, by their
  \<^verbatim>\<open>'status'\<close>: \<^verbatim>\<open>'success'\<close> with \<^verbatim>\<open>'url'\<close> and the fetched page, or \<^verbatim>\<open>'error'\<close> with
  \<^verbatim>\<open>'url'\<close> and \<^verbatim>\<open>'error'\<close>; timestamps, headers and the parsed data are left out. Or an
  exception object, appended as it is.
\<close>

record page =
  page_status_code :: int
  page_content :: string

datatype scrape_result =
    Success string page
  | Failure string string
  | RawException task_exception

text \<open>\<^verbatim>\<open>result['url']\<close>, where the entry is a dictionary.\<close>

fun result_url :: "scrape_result \<Rightarrow> string option" where
  "result_url (Success url p) = Some url"
| "result_url (Failure url msg) = Some url"
| "result_url (RawException e) = None"

text \<open>
  The collaborators of one \<^verbatim>\<open>scrape\<close> task, the \<open>i\<close>-th of a batch: what
  \<^verbatim>\<open>_async_rate_limit()\<close> gives (it is awaited outside the \<^verbatim>\<open>try\<close> of \<^verbatim>\<open>scrape\<close>), and
  what the request for the URL, its parsing and extraction give.
\<close>

record scrape_env =
  rate_limit :: "nat \<Rightarrow> unit task_outcome"
  fetch :: "nat \<Rightarrow> string \<Rightarrow> page task_outcome"

text \<open>
  \<^verbatim>\<open>_scrape_with_requests\<close> builds the success dictionary for its URL; its
  \<^verbatim>\<open>except Exception\<close> logs and re-raises, and a \<^verbatim>\<open>CancelledError\<close> passes it by.
\<close>

definition scrape_with_requests :: "scrape_env \<Rightarrow> nat \<Rightarrow> string \<Rightarrow> scrape_result task_outcome" where
  "scrape_with_requests env i url =
     (case fetch env i url of
        Returned response_data \<Rightarrow> Returned (Success url response_data)
      | Raised e \<Rightarrow> Raised e)"

text \<open>
  \<^verbatim>\<open>scrape\<close>: an \<^verbatim>\<open>Exception\<close> inside its \<^verbatim>\<open>try\<close> becomes the error dictionary of the URL;
  a \<^verbatim>\<open>CancelledError\<close> there, and whatever the rate limiting raises, leaves the
  coroutine.
\<close>

definition scrape :: "scrape_env \<Rightarrow> nat \<Rightarrow> string \<Rightarrow> scrape_result task_outcome" where
  "scrape env i url =
     (case rate_limit env i of
        Raised e \<Rightarrow> Raised e
      | Returned u \<Rightarrow>
          (case scrape_with_requests env i url of
             Returned result \<Rightarrow> Returned result
           | Raised (ExceptionWith msg) \<Rightarrow> Returned (Failure url msg)
           | Raised CancelledTask \<Rightarrow> Raised CancelledTask))"

text \<open>
  \<^verbatim>\<open>asyncio.gather(*tasks, return_exceptions=...)\<close>: the outcomes in the order of the
  tasks, a cancelled task counting as one that raised \<^verbatim>\<open>CancelledError\<close>; without
  \<^verbatim>\<open>return_exceptions\<close> the first exception is raised to the caller.
\<close>

definition gather :: "bool \<Rightarrow> 'a task_outcome list \<Rightarrow> task_exception + 'a task_outcome list" where
  "gather return_exceptions outcomes =
     (if return_exceptions then Inr outcomes
      else (case [e. Raised e \<leftarrow> outcomes] of
              [] \<Rightarrow> Inr outcomes
            | e # rest \<Rightarrow> Inl e))"

text \<open>
  \<^verbatim>\<open>scrape_multiple\<close>: \<open>Inl\<close> is an exception that leaves the call. An outcome that is
  an instance of \<^verbatim>\<open>Exception\<close> becomes the error dictionary of its URL; every other
  outcome is appended as it is. The logging calls are left out.
\<close>

definition scrape_multiple ::
    "scrape_env \<Rightarrow> string list \<Rightarrow> task_exception + scrape_result list" where
  "scrape_multiple env urls =
     (if urls = [] then Inr []
      else
        let tasks = map (\<lambda>(i, url). scrape env i url) (enumerate 0 urls)
        in case gather True tasks of
             Inl e \<Rightarrow> Inl e
           | Inr results \<Rightarrow>
               Inr (map (\<lambda>(i, result).
                           case result of
                             Raised (ExceptionWith msg) \<Rightarrow> Failure (urls ! i) msg
                           | Raised CancelledTask \<Rightarrow> RawException CancelledTask
                           | Returned r \<Rightarrow> r)
                        (enumerate 0 results)))"

text \<open>What the \<open>i\<close>-th task alone determines for its URL.\<close>

definition own_result :: "scrape_env \<Rightarrow> nat \<Rightarrow> string \<Rightarrow> scrape_result" where
  "own_result env i url =
     (case rate_limit env i of
        Raised (ExceptionWith msg) \<Rightarrow> Failure url msg
      | Raised CancelledTask \<Rightarrow> RawException CancelledTask
      | Returned u \<Rightarrow>
          (case fetch env i url of
             Returned p \<Rightarrow> Success url p
           | Raised (ExceptionWith msg) \<Rightarrow> Failure url msg
           | Raised CancelledTask \<Rightarrow> RawException CancelledTask))"

section \<open>Properties of the rate limiter\<close>

lemma interval_of_nonneg: "0 \<le> interval_of rps"
  by (simp add: interval_of_def)


lemma sleep_half: "sleep now (1 / 2) = Inr (now + 1 / 2)"
  by (simp add: sleep_def)

lemma update_burst_tracking_returns:
  "\<exists>t s'. update_burst_tracking now s = Inr (t, s') \<and> now \<le> t
      \<and> adaptive_mode s' = adaptive_mode s \<and> min_interval s' = min_interval s"
  by (simp add: update_burst_tracking_def Let_def sleep_half)

lemma wait_fixed:
  assumes "\<not> adaptive_mode s"
  shows "\<exists>t s'. wait now s = Inr (t, s') \<and> now \<le> t
      \<and> last_request_time s + min_interval s \<le> t \<and> last_request_time s' = t
      \<and> \<not> adaptive_mode s' \<and> min_interval s' = min_interval s"
proof -
  define t1 where "t1 = (if now - last_request_time s < min_interval s
                         then last_request_time s + min_interval s else now)"
  have t1: "now \<le> t1" "last_request_time s + min_interval s \<le> t1"
    by (auto simp: t1_def)
  obtain t s' where u: "update_burst_tracking t1 s = Inr (t, s')" "t1 \<le> t"
      "adaptive_mode s' = adaptive_mode s" "min_interval s' = min_interval s"
    using update_burst_tracking_returns [of t1 s] by blast
  have "wait now s = Inr (t, s'\<lparr>last_request_time := t\<rparr>)"
    using assms u(1) by (auto simp: wait_def Let_def sleep_def t1_def add.commute)
  then show ?thesis using t1 u assms by auto
qed

lemma sequential_waits_fixed:
  assumes "\<not> adaptive_mode s" "\<forall>g \<in> set gaps. 0 \<le> g" "0 \<le> min_interval s"
  shows "\<exists>t s'. sequential_waits gaps now s = Inr (t, s') \<and> now \<le> t
      \<and> (gaps \<noteq> [] \<longrightarrow> last_request_time s + of_nat (length gaps) * min_interval s \<le> t)"
  using assms
proof (induction gaps arbitrary: now s)
  case Nil
  then show ?case by simp
next
  case (Cons g gs)
  obtain t1 s1 where w: "wait (now + g) s = Inr (t1, s1)" "now + g \<le> t1"
      "last_request_time s + min_interval s \<le> t1" "last_request_time s1 = t1"
      "\<not> adaptive_mode s1" "min_interval s1 = min_interval s"
    using wait_fixed [OF Cons.prems(1), of "now + g"] by blast
  have g: "0 \<le> g" using Cons.prems(2) by simp
  obtain t s' where r: "sequential_waits gs t1 s1 = Inr (t, s')" "t1 \<le> t"
      "gs \<noteq> [] \<longrightarrow> last_request_time s1 + of_nat (length gs) * min_interval s1 \<le> t"
    using Cons.IH [OF w(5), of t1] Cons.prems w(6) by auto
  have eq: "sequential_waits (g # gs) now s = Inr (t, s')"
    using w(1) r(1) by simp
  have "last_request_time s + of_nat (length (g # gs)) * min_interval s \<le> t"
  proof (cases "gs = []")
    case True
    then show ?thesis using w(3) r(2) by simp
  next
    case False
    then have "t1 + of_nat (length gs) * min_interval s \<le> t"
      using r(3) w(4) w(6) by simp
    then show ?thesis using w(3) by (simp add: algebra_simps)
  qed
  then show ?case using eq g w(2) r(2) by auto
qed


lemma fresh_limiter_fixed:
  "\<not> adaptive_mode (fresh_limiter rps bl) \<and> min_interval (fresh_limiter rps bl) = interval_of rps"
  by (simp add: fresh_limiter_def)

lemma set_rate_min_interval: "min_interval (set_rate rps s) = interval_of rps"
  by (simp add: set_rate_def Let_def)

text \<open>
  Claim C7. In fixed (non-adaptive) mode, with a configured rate \<open>r > 0\<close> (so that the
  target interval is \<open>1 / r\<close>), \<open>N \<ge> 1\<close> sequential \<^verbatim>\<open>wait()\<close> calls all return, and the
  wall clock advances by at least \<open>(N - 1) / r\<close> seconds between the first call and
  the return of the last one, whatever time the caller spends between the calls. With
  no time spent between the calls the whole advance is sleep imposed by the limiter.
\<close>

theorem wait_fixed_rate_lower_bound:
  assumes "0 < r" and "\<not> adaptive_mode s" and "min_interval s = 1 / r"
    and "gaps \<noteq> []" and "\<forall>g \<in> set gaps. 0 \<le> g"
  shows "\<exists>t s'. sequential_waits gaps now s = Inr (t, s')
           \<and> of_nat (length gaps - 1) / r \<le> t - now"
proof -
  obtain g gs where gaps: "gaps = g # gs"
    using assms(4) by (cases gaps) auto
  have g: "0 \<le> g" and gs: "\<forall>g \<in> set gs. 0 \<le> g"
    using assms(5) gaps by auto
  have d: "0 \<le> min_interval s"
    using assms(1,3) by simp
  obtain t1 s1 where w: "wait (now + g) s = Inr (t1, s1)" "now + g \<le> t1"
      "last_request_time s1 = t1" "\<not> adaptive_mode s1" "min_interval s1 = min_interval s"
    using wait_fixed [OF assms(2), of "now + g"] by blast
  obtain t s' where r: "sequential_waits gs t1 s1 = Inr (t, s')" "t1 \<le> t"
      "gs \<noteq> [] \<longrightarrow> last_request_time s1 + of_nat (length gs) * min_interval s1 \<le> t"
    using sequential_waits_fixed [OF w(4) gs, of t1] d w(5) by auto
  have eq: "sequential_waits gaps now s = Inr (t, s')"
    using gaps w(1) r(1) by simp
  have "now + of_nat (length gs) * (1 / r) \<le> t"
  proof (cases "gs = []")
    case True
    then show ?thesis using w(2) r(2) g by simp
  next
    case False
    then have "t1 + of_nat (length gs) * (1 / r) \<le> t"
      using r(3) w(3) w(5) assms(3) by simp
    then show ?thesis using w(2) g by simp
  qed
  then have "of_nat (length gaps - 1) / r \<le> t - now"
    using gaps by (simp add: algebra_simps)
  then show ?thesis using eq by blast
qed

text \<open>
  Three calls back to back at two requests per second on a fresh limiter: the clock
  moves from 100 to 101, exactly \<open>(3 - 1) / 2\<close> seconds.
\<close>

theorem wait_fixed_rate_lower_bound_witness:
  "sequential_waits [0, 0, 0] 100 (fresh_limiter 2 5)
     = Inr (101, (fresh_limiter 2 5)\<lparr>request_times := [201 / 2, 101], last_request_time := 101\<rparr>)
   \<and> (\<exists>t s'. sequential_waits [0, 0, 0] 100 (fresh_limiter 2 5) = Inr (t, s')
           \<and> of_nat (length [0, 0, 0 :: rat] - 1) / 2 \<le> t - 100)"
  using wait_fixed_rate_lower_bound [of 2 "fresh_limiter 2 5" "[0, 0, 0]" 100]
  by (simp add: fresh_limiter_def interval_of_def wait_def update_burst_tracking_def
      deque_append_def sleep_def Let_def)


lemma report_success_iter:
  assumes "adaptive_mode s" and "success_count s = 0" and "k < 5"
  shows "(report_success ^^ k) s = s\<lparr>success_count := int k\<rparr>"
  using assms(3)
proof (induction k)
  case 0
  then show ?case using assms(2) by simp
next
  case (Suc k)
  then have ih: "(report_success ^^ k) s = s\<lparr>success_count := int k\<rparr>" by simp
  have "(report_success ^^ Suc k) s = report_success ((report_success ^^ k) s)"
    by simp
  also have "\<dots> = report_success (s\<lparr>success_count := int k\<rparr>)"
    by (simp only: ih)
  also have "\<dots> = s\<lparr>success_count := int (Suc k)\<rparr>"
    using Suc.prems assms(1) by (simp add: report_success_def Let_def)
  finally show ?case .
qed

lemma report_success_fifth:
  assumes "adaptive_mode s" and "success_count s = 0"
  shows "(report_success ^^ 5) s
           = s\<lparr>current_delay := max (min_interval s) (current_delay s * (9 / 10)),
                success_count := 0\<rparr>"
proof -
  have four: "(report_success ^^ 4) s = s\<lparr>success_count := 4\<rparr>"
    using report_success_iter [OF assms, of 4] by simp
  have "(report_success ^^ 5) s = report_success ((report_success ^^ 4) s)"
    by (simp add: numeral_eq_Suc)
  also have "\<dots> = report_success (s\<lparr>success_count := 4\<rparr>)"
    by (simp only: four)
  also have "\<dots> = s\<lparr>current_delay := max (min_interval s) (current_delay s * (9 / 10)),
                        success_count := 0\<rparr>"
    using assms(1) by (simp add: report_success_def Let_def)
  finally show ?thesis .
qed

text \<open>
  Claim C8. In adaptive mode, \<^verbatim>\<open>report_failure(status_code)\<close> multiplies
  \<^verbatim>\<open>current_delay\<close> by 2.0 for status 429, by 1.5 for 502, 503 and 504, and by 1.2 for
  every other status (and for no status), caps the result at 30 seconds and resets the
  success streak to 0. \<^verbatim>\<open>report_success()\<close> leaves the delay alone until the streak
  reaches 5, then multiplies it by 0.9, floored at the target interval, and restarts
  the streak: starting from an empty streak, the first four successes keep the delay
  and the fifth lowers it.
\<close>

theorem adaptive_delay_adjustment:
  assumes "adaptive_mode s"
  shows "current_delay (report_failure (Some 429) s) = min (current_delay s * 2) 30
       \<and> (\<forall>c \<in> {502, 503, 504}.
             current_delay (report_failure (Some c) s) = min (current_delay s * (3 / 2)) 30)
       \<and> (\<forall>sc. sc \<noteq> Some 429 \<and> sc \<notin> Some ` {502, 503, 504} \<longrightarrow>
             current_delay (report_failure sc s) = min (current_delay s * (6 / 5)) 30)
       \<and> (\<forall>sc. success_count (report_failure sc s) = 0)
       \<and> (success_count s + 1 < 5 \<longrightarrow>
             current_delay (report_success s) = current_delay s
           \<and> success_count (report_success s) = success_count s + 1)
       \<and> (success_count s + 1 \<ge> 5 \<longrightarrow>
             current_delay (report_success s) = max (min_interval s) (current_delay s * (9 / 10))
           \<and> success_count (report_success s) = 0)
       \<and> (success_count s = 0 \<longrightarrow>
             (\<forall>k < 5. current_delay ((report_success ^^ k) s) = current_delay s)
           \<and> current_delay ((report_success ^^ 5) s)
               = max (min_interval s) (current_delay s * (9 / 10))
           \<and> success_count ((report_success ^^ 5) s) = 0)"
proof -
  have f: "current_delay (report_failure (Some 429) s) = min (current_delay s * 2) 30"
    using assms by (simp add: report_failure_def Let_def)
  have g: "\<forall>c \<in> {502, 503, 504}.
             current_delay (report_failure (Some c) s) = min (current_delay s * (3 / 2)) 30"
    using assms by (simp add: report_failure_def Let_def)
  have h: "\<forall>sc. sc \<noteq> Some 429 \<and> sc \<notin> Some ` {502, 503, 504} \<longrightarrow>
             current_delay (report_failure sc s) = min (current_delay s * (6 / 5)) 30"
    using assms by (auto simp: report_failure_def Let_def)
  have r: "\<forall>sc. success_count (report_failure sc s) = 0"
    using assms by (simp add: report_failure_def Let_def)
  have s1: "success_count s + 1 < 5 \<longrightarrow>
             current_delay (report_success s) = current_delay s
           \<and> success_count (report_success s) = success_count s + 1"
    using assms by (simp add: report_success_def Let_def)
  have s2: "success_count s + 1 \<ge> 5 \<longrightarrow>
             current_delay (report_success s) = max (min_interval s) (current_delay s * (9 / 10))
           \<and> success_count (report_success s) = 0"
    using assms by (simp add: report_success_def Let_def)
  have s3: "success_count s = 0 \<longrightarrow>
             (\<forall>k < 5. current_delay ((report_success ^^ k) s) = current_delay s)
           \<and> current_delay ((report_success ^^ 5) s)
               = max (min_interval s) (current_delay s * (9 / 10))
           \<and> success_count ((report_success ^^ 5) s) = 0"
    using report_success_iter [OF assms] report_success_fifth [OF assms] by simp
  show ?thesis using f g h r s1 s2 s3 by blast
qed

text \<open>
  At two requests per second the delay starts at 1/2: a 429 doubles it, a 503 gives 3/4,
  a failure without status 3/5; at one request per 20 seconds a 429 is capped at 30.
\<close>

theorem adaptive_delay_adjustment_witness:
  "adaptive_mode (enable_adaptive_mode (fresh_limiter 2 5))
   \<and> current_delay (report_failure (Some 429) (enable_adaptive_mode (fresh_limiter 2 5))) = 1
   \<and> current_delay (report_failure (Some 503) (enable_adaptive_mode (fresh_limiter 2 5))) = 3 / 4
   \<and> current_delay (report_failure None (enable_adaptive_mode (fresh_limiter 2 5))) = 3 / 5
   \<and> current_delay (report_failure (Some 429) (enable_adaptive_mode (fresh_limiter (1 / 20) 5))) = 30
   \<and> success_count (report_failure (Some 500) (enable_adaptive_mode (fresh_limiter 2 5))) = 0
   \<and> current_delay ((report_success ^^ 5)
        (report_failure (Some 429) (enable_adaptive_mode (fresh_limiter 2 5)))) = 9 / 10"
  using adaptive_delay_adjustment [of "enable_adaptive_mode (fresh_limiter 2 5)"]
        adaptive_delay_adjustment [of "enable_adaptive_mode (fresh_limiter (1 / 20) 5)"]
        adaptive_delay_adjustment
          [of "report_failure (Some 429) (enable_adaptive_mode (fresh_limiter 2 5))"]
  by (simp add: enable_adaptive_mode_def fresh_limiter_def interval_of_def
      report_failure_def Let_def)

text \<open>
  Claim C10. \<^verbatim>\<open>set_rate(r)\<close> sets the target interval to \<open>1 / r\<close> for \<open>r > 0\<close> and to 0
  otherwise. While adaptive mode is on it leaves \<^verbatim>\<open>current_delay\<close> as it is; while
  adaptive mode is off it resets \<^verbatim>\<open>current_delay\<close> to the new target interval.
  \<^verbatim>\<open>disable_adaptive_mode()\<close> resets the delay to the target interval, and
  \<^verbatim>\<open>enable_adaptive_mode()\<close> does not touch it.
\<close>

theorem set_rate_keeps_adaptive_delay:
  "min_interval (set_rate r s) = (if r > 0 then 1 / r else 0)
   \<and> (adaptive_mode s \<longrightarrow> current_delay (set_rate r s) = current_delay s)
   \<and> (\<not> adaptive_mode s \<longrightarrow> current_delay (set_rate r s) = min_interval (set_rate r s))
   \<and> adaptive_mode (set_rate r s) = adaptive_mode s
   \<and> current_delay (disable_adaptive_mode s) = min_interval s
   \<and> \<not> adaptive_mode (disable_adaptive_mode s)
   \<and> current_delay (enable_adaptive_mode s) = current_delay s"
  by (simp add: set_rate_def interval_of_def Let_def disable_adaptive_mode_def
      enable_adaptive_mode_def)

text \<open>
  After a 429 in adaptive mode the delay is 1; \<^verbatim>\<open>set_rate(4)\<close> moves the target
  interval to 1/4 and the delay stays 1.
\<close>

theorem set_rate_keeps_adaptive_delay_witness:
  "adaptive_mode (report_failure (Some 429) (enable_adaptive_mode (fresh_limiter 2 5)))
   \<and> current_delay (report_failure (Some 429) (enable_adaptive_mode (fresh_limiter 2 5))) = 1
   \<and> current_delay
        (set_rate 4 (report_failure (Some 429) (enable_adaptive_mode (fresh_limiter 2 5)))) = 1
   \<and> min_interval
        (set_rate 4 (report_failure (Some 429) (enable_adaptive_mode (fresh_limiter 2 5)))) = 1 / 4
   \<and> \<not> adaptive_mode (fresh_limiter 2 5)
   \<and> current_delay (set_rate 4 (fresh_limiter 2 5)) = 1 / 4
   \<and> current_delay (set_rate 0 (fresh_limiter 2 5)) = 0"
  using set_rate_keeps_adaptive_delay
          [of 4 "report_failure (Some 429) (enable_adaptive_mode (fresh_limiter 2 5))"]
        set_rate_keeps_adaptive_delay [of 4 "fresh_limiter 2 5"]
        set_rate_keeps_adaptive_delay [of 0 "fresh_limiter 2 5"]
  by (simp add: enable_adaptive_mode_def fresh_limiter_def interval_of_def
      report_failure_def Let_def)

section \<open>Properties of the proxy pool\<close>

lemma validate_loop_mset:
  "validate_loop pr i ps (w, f) = (w', f') \<Longrightarrow> mset w' + mset f' = mset w + mset f + mset ps"
proof (induction ps arbitrary: i w f)
  case Nil
  then show ?case by simp
next
  case (Cons p ps)
  then show ?case by (auto split: option.splits if_splits)
qed

lemma validate_proxies_partition:
  "mset (working_proxies (validate_proxies pr now s)) + mset (failed_proxies (validate_proxies pr now s))
     = mset (proxy_list (validate_proxies pr now s))"
proof -
  obtain w f where wf: "validate_loop pr 0 (proxy_list s) ([], []) = (w, f)"
    by (cases "validate_loop pr 0 (proxy_list s) ([], [])") auto
  from validate_loop_mset [OF wf] show ?thesis
    by (simp add: validate_proxies_def wf)
qed

lemma validate_proxies_union:
  "set (working_proxies (validate_proxies pr now s)) \<union> set (failed_proxies (validate_proxies pr now s))
     = set (proxy_list (validate_proxies pr now s))"
proof -
  have "set_mset (mset (working_proxies (validate_proxies pr now s))
           + mset (failed_proxies (validate_proxies pr now s)))
        = set_mset (mset (proxy_list (validate_proxies pr now s)))"
    by (simp only: validate_proxies_partition)
  then show ?thesis by simp
qed

lemma pool_inv_validate: "pool_inv (validate_proxies pr now s)"
proof -
  let ?s = "validate_proxies pr now s"
  have "mset (working_proxies ?s) \<subseteq># mset (working_proxies ?s) + mset (failed_proxies ?s)"
       "mset (failed_proxies ?s) \<subseteq># mset (working_proxies ?s) + mset (failed_proxies ?s)"
    by simp_all
  then show ?thesis
    unfolding pool_inv_def validate_proxies_partition by blast
qed

lemma pool_inv_init: "pool_inv (ProxyHandler_init pr now given)"
  by (simp add: ProxyHandler_init_def Let_def pool_inv_validate) (simp add: pool_inv_def)

lemma pool_inv_add: "pool_inv s \<Longrightarrow> pool_inv (add_proxy p s)"
  by (auto simp: pool_inv_def add_proxy_def intro: subset_mset.order_trans)

lemma mset_diff_mono: "A \<subseteq># B \<Longrightarrow> A - C \<subseteq># B - C"
proof (rule mset_subset_eqI)
  fix a
  assume "A \<subseteq># B"
  then have "count A a \<le> count B a"
    by (rule mset_subset_eq_count)
  then show "count (A - C) a \<le> count (B - C) a"
    by simp
qed

lemma remove_proxy_eq:
  "remove_proxy p s = s\<lparr>proxy_list := remove1 p (proxy_list s),
                        working_proxies := remove1 p (working_proxies s),
                        failed_proxies := remove1 p (failed_proxies s)\<rparr>"
  by (simp add: remove_proxy_def Let_def remove1_idem)

lemma pool_inv_remove: "pool_inv s \<Longrightarrow> pool_inv (remove_proxy p s)"
  by (simp add: pool_inv_def remove_proxy_eq mset_diff_mono)

lemma pool_inv_get_proxy: "pool_inv s \<Longrightarrow> pool_inv (snd (get_proxy pr now rnd s))"
  by (simp add: get_proxy_def Let_def pool_inv_validate split: sum.splits)

lemma pool_inv_apply: "pool_inv s \<Longrightarrow> pool_inv (apply_proxy_op s x)"
  by (cases x)
     (simp_all add: pool_inv_add pool_inv_remove pool_inv_validate force_validation_def
        pool_inv_get_proxy)

lemma pool_inv_run: "pool_inv s \<Longrightarrow> pool_inv (run_proxy_ops ops s)"
  unfolding run_proxy_ops_def
  by (induction ops arbitrary: s) (simp_all add: pool_inv_apply)

lemma mset_subset_set: "mset xs \<subseteq># mset ys \<Longrightarrow> set xs \<subseteq> set ys"
proof -
  assume "mset xs \<subseteq># mset ys"
  then have "set_mset (mset xs) \<subseteq> set_mset (mset ys)"
    by (rule set_mset_mono)
  then show ?thesis by simp
qed

lemma pool_inv_subset:
  assumes "pool_inv s"
  shows "set (working_proxies s) \<union> set (failed_proxies s) \<subseteq> set (proxy_list s)"
  using assms mset_subset_set [of "working_proxies s" "proxy_list s"]
    mset_subset_set [of "failed_proxies s" "proxy_list s"]
  by (simp add: pool_inv_def)

lemma mset_subset_distinct:
  assumes "mset xs \<subseteq># mset ys" and "distinct ys"
  shows "distinct xs"
proof -
  have "count (mset xs) a = (if a \<in> set xs then 1 else 0)" for a
  proof -
    have "count (mset xs) a \<le> count (mset ys) a"
      using assms(1) by (rule mset_subset_eq_count)
    also have "\<dots> \<le> 1"
      using assms(2) by (simp add: distinct_count_atmost_1)
    finally have le: "count (mset xs) a \<le> 1" .
    show ?thesis
    proof (cases "a \<in> set xs")
      case True
      then have pos: "0 < count (mset xs) a" by simp
      from le pos have "count (mset xs) a = 1" by linarith
      then show ?thesis using True by simp
    next
      case False
      then show ?thesis by (simp add: count_eq_zero_iff)
    qed
  qed
  then show ?thesis by (simp only: distinct_count_atmost_1) simp
qed

lemma pool_inv_distinct:
  assumes "pool_inv s" and "distinct (proxy_list s)"
  shows "distinct (working_proxies s) \<and> distinct (failed_proxies s)"
  using assms mset_subset_distinct [of _ "proxy_list s"] by (simp add: pool_inv_def)

lemma remove_proxy_purges:
  assumes "pool_inv s" and "distinct (proxy_list s)"
  shows "p \<notin> set (proxy_list (remove_proxy p s))
       \<and> p \<notin> set (working_proxies (remove_proxy p s))
       \<and> p \<notin> set (failed_proxies (remove_proxy p s))"
  using assms(2) pool_inv_distinct [OF assms] by (simp add: remove_proxy_eq)

lemma remove_proxy_others:
  "q \<noteq> p \<Longrightarrow>
     (q \<in> set (proxy_list (remove_proxy p s)) \<longleftrightarrow> q \<in> set (proxy_list s))
   \<and> (q \<in> set (working_proxies (remove_proxy p s)) \<longleftrightarrow> q \<in> set (working_proxies s))
   \<and> (q \<in> set (failed_proxies (remove_proxy p s)) \<longleftrightarrow> q \<in> set (failed_proxies s))"
  by (simp add: remove_proxy_eq)

lemma add_proxy_frame:
  "working_proxies (add_proxy p s) = working_proxies s
   \<and> failed_proxies (add_proxy p s) = failed_proxies s
   \<and> set (proxy_list (add_proxy p s)) = insert p (set (proxy_list s))"
  by (auto simp: add_proxy_def)

lemma init_union:
  "set (working_proxies (ProxyHandler_init pr now given))
     \<union> set (failed_proxies (ProxyHandler_init pr now given))
   = set (proxy_list (ProxyHandler_init pr now given))"
  by (simp add: ProxyHandler_init_def Let_def validate_proxies_union)


lemma validate_proxies_list: "proxy_list (validate_proxies pr now s) = proxy_list s"
  by (simp add: validate_proxies_def split: prod.splits)

text \<open>
  Claim C9 as stated fails after \<^verbatim>\<open>add_proxy\<close>: the new proxy is in the base pool and
  in neither partition, so the base pool is not the union of the two.
\<close>

theorem proxy_pool_union_counterexample:
  "set (proxy_list (run_proxy_ops [AddProxy ''http://10.0.0.1:8080'']
          (ProxyHandler_init (\<lambda>i p. Some 200) 0 None)))
   \<noteq> set (working_proxies (run_proxy_ops [AddProxy ''http://10.0.0.1:8080'']
          (ProxyHandler_init (\<lambda>i p. Some 200) 0 None)))
     \<union> set (failed_proxies (run_proxy_ops [AddProxy ''http://10.0.0.1:8080'']
          (ProxyHandler_init (\<lambda>i p. Some 200) 0 None)))"
  by (simp add: run_proxy_ops_def ProxyHandler_init_def add_proxy_def)

text \<open>
  A base pool constructed from a list that names a proxy twice keeps one entry of it
  after \<^verbatim>\<open>remove_proxy\<close>.
\<close>

lemma remove_proxy_duplicate_stays:
  "''http://10.0.0.1:8080'' \<in> set (proxy_list (remove_proxy ''http://10.0.0.1:8080''
      (ProxyHandler_init (\<lambda>i p. Some 200) 0
         (Some [''http://10.0.0.1:8080'', ''http://10.0.0.1:8080'']))))"
  by (simp add: ProxyHandler_init_def validate_proxies_def remove_proxy_def)

text \<open>
  \<^verbatim>\<open>get_proxy\<close> changes the pool only by the validation pass it may run: when the
  healthy partition is not empty and more than \<^verbatim>\<open>validation_interval\<close> seconds have
  passed since the last validation, the pool afterwards is the validated one, and
  otherwise the pool is left as it was.
\<close>

lemma get_proxy_effect:
  "snd (get_proxy pr now rnd s)
     = (if working_proxies s \<noteq> [] \<and> now - last_validation s > validation_interval s
        then validate_proxies pr now s else s)"
  by (simp add: get_proxy_def Let_def split: sum.splits)

text \<open>
  Claim C9, amended. After every sequence of \<^verbatim>\<open>add_proxy\<close>, \<^verbatim>\<open>remove_proxy\<close>,
  \<^verbatim>\<open>force_validation\<close> and \<^verbatim>\<open>get_proxy\<close> calls on a constructed pool, the healthy and
  the unhealthy partition are contained in the base pool; right after construction and
  right after a validation pass the base pool equals their union, and a validation pass
  leaves the base pool as it is. \<^verbatim>\<open>add_proxy\<close> changes the base pool only: the
  partitions stay as they are. \<^verbatim>\<open>get_proxy\<close> changes the pool only by the validation
  pass it runs when the healthy partition is not empty and the validation interval has
  passed; otherwise it leaves the pool as it was. \<^verbatim>\<open>force_validation\<close> is a validation
  pass. \<^verbatim>\<open>remove_proxy(p)\<close> changes the membership of no proxy but \<open>p\<close>, and when the
  base pool names no proxy twice it purges \<open>p\<close> from the base pool and from both
  partitions.
\<close>

theorem proxy_pool_partition_invariant:
  assumes "s = run_proxy_ops ops (ProxyHandler_init pr0 t0 given)"
  shows "set (working_proxies s) \<union> set (failed_proxies s) \<subseteq> set (proxy_list s)
       \<and> set (working_proxies (ProxyHandler_init pr0 t0 given))
           \<union> set (failed_proxies (ProxyHandler_init pr0 t0 given))
         = set (proxy_list (ProxyHandler_init pr0 t0 given))
       \<and> set (working_proxies (validate_proxies pr t s))
           \<union> set (failed_proxies (validate_proxies pr t s))
         = set (proxy_list (validate_proxies pr t s))
       \<and> proxy_list (validate_proxies pr t s) = proxy_list s
       \<and> force_validation pr t s = validate_proxies pr t s
       \<and> snd (get_proxy pr t rnd s)
           = (if working_proxies s \<noteq> [] \<and> t - last_validation s > validation_interval s
              then validate_proxies pr t s else s)
       \<and> working_proxies (add_proxy p s) = working_proxies s
       \<and> failed_proxies (add_proxy p s) = failed_proxies s
       \<and> set (proxy_list (add_proxy p s)) = insert p (set (proxy_list s))
       \<and> (\<forall>q. q \<noteq> p \<longrightarrow>
             (q \<in> set (proxy_list (remove_proxy p s)) \<longleftrightarrow> q \<in> set (proxy_list s))
           \<and> (q \<in> set (working_proxies (remove_proxy p s)) \<longleftrightarrow> q \<in> set (working_proxies s))
           \<and> (q \<in> set (failed_proxies (remove_proxy p s)) \<longleftrightarrow> q \<in> set (failed_proxies s)))
       \<and> (distinct (proxy_list s) \<longrightarrow>
             p \<notin> set (proxy_list (remove_proxy p s))
           \<and> p \<notin> set (working_proxies (remove_proxy p s))
           \<and> p \<notin> set (failed_proxies (remove_proxy p s)))"
proof -
  have inv: "pool_inv s"
    unfolding assms by (rule pool_inv_run) (rule pool_inv_init)
  note a = pool_inv_subset [OF inv]
  note b = init_union [of pr0 t0 given]
  note c = validate_proxies_union [of pr t s]
  note d = validate_proxies_list [of pr t s]
  note e = add_proxy_frame [of p s]
  have f: "\<forall>q. q \<noteq> p \<longrightarrow>
             (q \<in> set (proxy_list (remove_proxy p s)) \<longleftrightarrow> q \<in> set (proxy_list s))
           \<and> (q \<in> set (working_proxies (remove_proxy p s)) \<longleftrightarrow> q \<in> set (working_proxies s))
           \<and> (q \<in> set (failed_proxies (remove_proxy p s)) \<longleftrightarrow> q \<in> set (failed_proxies s))"
    using remove_proxy_others [of _ p s] by blast
  have g: "distinct (proxy_list s) \<longrightarrow>
             p \<notin> set (proxy_list (remove_proxy p s))
           \<and> p \<notin> set (working_proxies (remove_proxy p s))
           \<and> p \<notin> set (failed_proxies (remove_proxy p s))"
    using remove_proxy_purges [OF inv, of p] by blast
  have h: "force_validation pr t s = validate_proxies pr t s"
    by (simp add: force_validation_def)
  note i = get_proxy_effect [of pr t rnd s]
  show ?thesis
    apply (intro conjI)
    using a b c d e f g h i by blast+
qed

text \<open>
  A pool of a healthy proxy a and two unhealthy proxies b and d, after adding c and
  removing d: c is in neither partition, removing b purges it, and a \<^verbatim>\<open>get_proxy\<close> call
  one second after the validation leaves the pool as it is.
\<close>

theorem proxy_pool_partition_invariant_witness:
  "run_proxy_ops [AddProxy ''c'', RemoveProxy ''d'']
      (ProxyHandler_init (\<lambda>i p. if p = ''a'' then Some 200 else Some 500) 7
         (Some [''a'', ''b'', ''d'']))
     = \<lparr> proxy_list = [''a'', ''b'', ''c''], working_proxies = [''a''],
         failed_proxies = [''b''], last_validation = 7, validation_interval = 300 \<rparr>
   \<and> set [''a''] \<union> set [''b''] \<subseteq> set [''a'', ''b'', ''c'']
   \<and> distinct [''a'', ''b'', ''c'']
   \<and> ''b'' \<notin> set (failed_proxies (remove_proxy ''b''
        \<lparr> proxy_list = [''a'', ''b'', ''c''], working_proxies = [''a''],
          failed_proxies = [''b''], last_validation = 7, validation_interval = 300 \<rparr>))
   \<and> ''b'' \<notin> set (proxy_list (remove_proxy ''b''
        \<lparr> proxy_list = [''a'', ''b'', ''c''], working_proxies = [''a''],
          failed_proxies = [''b''], last_validation = 7, validation_interval = 300 \<rparr>))
   \<and> snd (get_proxy (\<lambda>i p. None) 8 0
        \<lparr> proxy_list = [''a'', ''b'', ''c''], working_proxies = [''a''],
          failed_proxies = [''b''], last_validation = 7, validation_interval = 300 \<rparr>)
     = \<lparr> proxy_list = [''a'', ''b'', ''c''], working_proxies = [''a''],
         failed_proxies = [''b''], last_validation = 7, validation_interval = 300 \<rparr>"
  using proxy_pool_partition_invariant
    [where s = "\<lparr> proxy_list = [''a'', ''b'', ''c''], working_proxies = [''a''],
           failed_proxies = [''b''], last_validation = 7, validation_interval = 300 \<rparr>"
       and ops = "[AddProxy ''c'', RemoveProxy ''d'']"
       and ?pr0.0 = "\<lambda>i p. if p = ''a'' then Some 200 else Some 500"
       and ?t0.0 = 7 and given = "Some [''a'', ''b'', ''d'']"
       and pr = "\<lambda>i p. None" and t = 8 and rnd = 0 and p = "''b''"]
  by (simp add: run_proxy_ops_def ProxyHandler_init_def validate_proxies_def add_proxy_def
      remove_proxy_def)

text \<open>
  \<^verbatim>\<open>get_proxy\<close> answers \<^verbatim>\<open>None\<close> when the healthy partition is empty at the call, and a
  proxy it returns is in the healthy partition it leaves behind.
\<close>

lemma get_proxy_none_when_empty:
  "working_proxies s = [] \<Longrightarrow> get_proxy pr now rnd s = (Inr None, s)"
  by (simp add: get_proxy_def)

lemma get_proxy_returns_healthy:
  assumes "get_proxy pr now rnd s = (Inr (Some d), s')"
  shows "\<exists>p \<in> set (working_proxies s'). d = [(''http'', p), (''https'', p)]"
  using assms
  by (auto simp: get_proxy_def Let_def random_choice_def split: if_splits)

text \<open>
  Claim C4 asks for \<^verbatim>\<open>None\<close> also when the healthy partition becomes empty in the
  revalidation that \<^verbatim>\<open>get_proxy\<close> triggers. The emptiness check comes before the
  revalidation, so the call reaches \<^verbatim>\<open>random.choice\<close> on an empty list: a pool whose
  only proxy was healthy at construction and fails the probe 1000 seconds later raises
  IndexError.
\<close>

theorem get_proxy_revalidation_raises:
  "get_proxy (\<lambda>i p. None) 1000 0
      (ProxyHandler_init (\<lambda>i p. Some 200) 0 (Some [''http://10.0.0.1:8080'']))
   = (Inl IndexError,
      \<lparr> proxy_list = [''http://10.0.0.1:8080''], working_proxies = [],
        failed_proxies = [''http://10.0.0.1:8080''], last_validation = 1000,
        validation_interval = 300 \<rparr>)"
  by (simp add: get_proxy_def ProxyHandler_init_def validate_proxies_def random_choice_def)

section \<open>Properties of the session managers\<close>

text \<open>
  Claim C6. Both managers derive the retry count from the global failure rate \<open>f\<close> and
  the configured count \<open>base\<close>: \<open>max(1, base - 1)\<close> for \<open>f < 0.1\<close>, \<open>base\<close> for
  \<open>0.1 \<le> f < 0.3\<close>, and \<open>min(base + 2, 10)\<close> otherwise. The backoff factor of each
  manager (0.5, 1.0, 2.0 in the synchronous one; 0.3, 0.5, 1.0 in the async one) does
  not decrease when the failure rate grows.
\<close>

theorem adaptive_retry_backoff_tiers:
  "(global_failure_rate m < 1 / 10 \<longrightarrow>
       calculate_adaptive_retries m = max 1 (max_retries m - 1))
   \<and> (1 / 10 \<le> global_failure_rate m \<and> global_failure_rate m < 3 / 10 \<longrightarrow>
       calculate_adaptive_retries m = max_retries m)
   \<and> (3 / 10 \<le> global_failure_rate m \<longrightarrow>
       calculate_adaptive_retries m = min (max_retries m + 2) 10)
   \<and> (global_failure_rate am < 1 / 10 \<longrightarrow>
       async_calculate_adaptive_retries am = max 1 (max_retries am - 1))
   \<and> (1 / 10 \<le> global_failure_rate am \<and> global_failure_rate am < 3 / 10 \<longrightarrow>
       async_calculate_adaptive_retries am = max_retries am)
   \<and> (3 / 10 \<le> global_failure_rate am \<longrightarrow>
       async_calculate_adaptive_retries am = min (max_retries am + 2) 10)
   \<and> (global_failure_rate m \<le> global_failure_rate m' \<longrightarrow>
       calculate_adaptive_backoff m \<le> calculate_adaptive_backoff m')
   \<and> (global_failure_rate am \<le> global_failure_rate am' \<longrightarrow>
       async_calculate_adaptive_backoff am \<le> async_calculate_adaptive_backoff am')"
  by (simp add: calculate_adaptive_retries_def async_calculate_adaptive_retries_def
      calculate_adaptive_backoff_def async_calculate_adaptive_backoff_def)

text \<open>
  With base 3: two retries at rate 0.05, three at 0.2, five at 0.5; with base 9 the
  high tier is capped at 10. The backoff at rate 0.5 is at least the one at 0.05.
\<close>

theorem adaptive_retry_backoff_tiers_witness:
  "calculate_adaptive_retries ((SessionManager_init 10 3 0)\<lparr>global_failure_rate := 1 / 20\<rparr>) = 2
   \<and> calculate_adaptive_retries ((SessionManager_init 10 3 0)\<lparr>global_failure_rate := 1 / 5\<rparr>) = 3
   \<and> async_calculate_adaptive_retries
        ((AsyncSessionManager_init 50 3 100 0)\<lparr>global_failure_rate := 1 / 2\<rparr>) = 5
   \<and> async_calculate_adaptive_retries
        ((AsyncSessionManager_init 50 9 100 0)\<lparr>global_failure_rate := 1 / 2\<rparr>) = 10
   \<and> calculate_adaptive_backoff ((SessionManager_init 10 3 0)\<lparr>global_failure_rate := 1 / 20\<rparr>)
       \<le> calculate_adaptive_backoff ((SessionManager_init 10 3 0)\<lparr>global_failure_rate := 1 / 2\<rparr>)
   \<and> async_calculate_adaptive_backoff
         ((AsyncSessionManager_init 50 3 100 0)\<lparr>global_failure_rate := 1 / 20\<rparr>)
       \<le> async_calculate_adaptive_backoff
         ((AsyncSessionManager_init 50 3 100 0)\<lparr>global_failure_rate := 1 / 2\<rparr>)"
  using adaptive_retry_backoff_tiers
          [of "(SessionManager_init 10 3 0)\<lparr>global_failure_rate := 1 / 20\<rparr>"
              "(AsyncSessionManager_init 50 3 100 0)\<lparr>global_failure_rate := 1 / 2\<rparr>"
              "(SessionManager_init 10 3 0)\<lparr>global_failure_rate := 1 / 2\<rparr>"
              "(AsyncSessionManager_init 50 3 100 0)\<lparr>global_failure_rate := 1 / 2\<rparr>"]
        adaptive_retry_backoff_tiers
          [of "(SessionManager_init 10 3 0)\<lparr>global_failure_rate := 1 / 5\<rparr>"
              "(AsyncSessionManager_init 50 3 100 0)\<lparr>global_failure_rate := 1 / 20\<rparr>"
              "(SessionManager_init 10 3 0)\<lparr>global_failure_rate := 1 / 2\<rparr>"
              "(AsyncSessionManager_init 50 3 100 0)\<lparr>global_failure_rate := 1 / 2\<rparr>"]
        adaptive_retry_backoff_tiers
          [of "(SessionManager_init 10 3 0)\<lparr>global_failure_rate := 1 / 5\<rparr>"
              "(AsyncSessionManager_init 50 9 100 0)\<lparr>global_failure_rate := 1 / 2\<rparr>"
              "(SessionManager_init 10 3 0)\<lparr>global_failure_rate := 1 / 2\<rparr>"
              "(AsyncSessionManager_init 50 3 100 0)\<lparr>global_failure_rate := 1 / 2\<rparr>"]
  by (simp add: SessionManager_init_def AsyncSessionManager_init_def)

text \<open>
  A dispatch that raises leaves the \<^verbatim>\<open>try\<close> with its exception; \<^verbatim>\<open>get_session\<close> changes
  neither the failure rate nor the configured retry count.
\<close>

lemma try_request_fails:
  assumes "attempt_failure a = Some f"
  shows "\<exists>m1. try_request start_time sid a m = (Inl f, m1)"
  using assms by (cases a) (simp_all add: try_request_def)

lemma async_get_session_keeps:
  "global_failure_rate (async_get_session new now sid m) = global_failure_rate m
   \<and> max_retries (async_get_session new now sid m) = max_retries m"
  by (simp add: async_get_session_def)

lemma async_retries_get_session:
  "async_calculate_adaptive_retries (async_get_session new now sid m)
     = async_calculate_adaptive_retries m"
  by (simp add: async_calculate_adaptive_retries_def async_get_session_keeps)

text \<open>
  With a transport that fails on every attempt, the loop dispatches once for every
  value of \<^verbatim>\<open>retries\<close> from its start up to \<^verbatim>\<open>adaptive_retries\<close>, and ends in the
  exception of its last dispatch.
\<close>

lemma request_loop_exhausts:
  assumes "always_fails transport" and "retries \<le> adaptive_retries"
  shows "\<exists>f. attempts_made (request_loop transport start_time sid url adaptive_retries retries n slept m)
              = n + nat (adaptive_retries - retries) + 1
           \<and> attempt_failure (transport (n + nat (adaptive_retries - retries))) = Some f
           \<and> fst (request_loop transport start_time sid url adaptive_retries retries n slept m)
              = Inl (failure_error f)"
  using assms(2)
proof (induction "nat (adaptive_retries - retries)" arbitrary: retries n slept m)
  case 0
  obtain f where f: "attempt_failure (transport n) = Some f" "f \<noteq> Cancelled"
    using assms(1) by (auto simp: always_fails_def)
  obtain m1 where t: "try_request start_time sid (transport n) m = (Inl f, m1)"
    using try_request_fails [OF f(1)] by blast
  have last: "\<not> retries + 1 \<le> adaptive_retries" and here: "nat (adaptive_retries - retries) = 0"
    using 0 by simp_all
  have "attempts_made (request_loop transport start_time sid url adaptive_retries retries n slept m)
          = n + 1
        \<and> fst (request_loop transport start_time sid url adaptive_retries retries n slept m)
          = Inl (failure_error f)"
    using f(2) t last "0.prems"
    by (cases f)
       (simp_all add: request_loop.simps [of transport _ _ _ adaptive_retries retries n]
          attempts_made_def)
  then show ?case using f(1) here by simp
next
  case (Suc k)
  obtain f where f: "attempt_failure (transport n) = Some f" "f \<noteq> Cancelled"
    using assms(1) by (auto simp: always_fails_def)
  obtain m1 where t: "try_request start_time sid (transport n) m = (Inl f, m1)"
    using try_request_fails [OF f(1)] by blast
  have more: "retries + 1 \<le> adaptive_retries"
    and k: "k = nat (adaptive_retries - (retries + 1))"
    and here: "nat (adaptive_retries - retries) = Suc (nat (adaptive_retries - (retries + 1)))"
    using Suc.hyps(2) by simp_all
  define slept' where
    "slept' = slept @ [2 ^ nat (retries + 1) * async_calculate_adaptive_backoff m1]"
  have step: "request_loop transport start_time sid url adaptive_retries retries n slept m
                = request_loop transport start_time sid url adaptive_retries (retries + 1) (Suc n)
                    slept' m1"
    using f(2) t more Suc.prems
    by (cases f)
       (simp_all add: request_loop.simps [of transport _ _ _ adaptive_retries retries n]
          slept'_def)
  from Suc.hyps(1) [OF k more, of "Suc n" slept' m1]
  show ?case unfolding step here by simp
qed

text \<open>
  The constructor accepts every limit from 0 on. \<^verbatim>\<open>make_request\<close> returns when the
  semaphore has a slot, and never with a limit of 0.
\<close>

lemma AsyncSessionManager_new_accepts:
  "0 \<le> limit \<Longrightarrow>
     AsyncSessionManager_new max_conn retries limit now
       = Inr (AsyncSessionManager_init max_conn retries limit now)"
  by (simp add: AsyncSessionManager_new_def)

lemma make_request_blocked:
  "concurrent_limit m = 0 \<Longrightarrow> make_request new transport now sid url m = None"
  by (simp add: make_request_def)

lemma make_request_exhausts:
  assumes "always_fails transport" and "0 \<le> async_calculate_adaptive_retries m"
    and "0 < concurrent_limit m"
  shows "\<exists>out f. make_request new transport now sid url m = Some out
           \<and> attempts_made out = nat (async_calculate_adaptive_retries m) + 1
           \<and> attempt_failure (transport (attempts_made out - 1)) = Some f
           \<and> fst out = Inl (failure_error f)"
proof -
  let ?out = "request_loop transport now sid url (async_calculate_adaptive_retries m) 0 0 []
                (async_get_session new now sid m)"
  have eq: "make_request new transport now sid url m = Some ?out"
    using assms(3) by (simp add: make_request_def Let_def async_retries_get_session)
  obtain f where f: "attempts_made ?out = nat (async_calculate_adaptive_retries m) + 1"
      "attempt_failure (transport (nat (async_calculate_adaptive_retries m))) = Some f"
      "fst ?out = Inl (failure_error f)"
    using request_loop_exhausts [OF assms(1), of 0 "async_calculate_adaptive_retries m" now sid
        url 0 "[]" "async_get_session new now sid m"] assms(2)
    by auto
  show ?thesis using eq f by simp
qed

text \<open>
  Claim C3 as stated fails on a fresh manager: the failure rate is 0, the adaptive
  retry count for \<^verbatim>\<open>max_retries = 2\<close> is \<open>max(1, 2 - 1) = 1\<close>, and an always-failing
  transport is dispatched twice, not three times.
\<close>

theorem make_request_three_attempts_counterexample:
  "map_option attempts_made
     (make_request (\<lparr>close_raises = None, closed = False\<rparr>, \<lparr>close_raises = None, closed = False\<rparr>)
        (\<lambda>n. RequestFails (Fails ''connection refused'' 1)) 0 ''default'' ''http://example.org''
        (AsyncSessionManager_init 50 2 100 0)) = Some 2
   \<and> map_option attempts_made
     (make_request (\<lparr>close_raises = None, closed = False\<rparr>, \<lparr>close_raises = None, closed = False\<rparr>)
        (\<lambda>n. RequestFails (Fails ''connection refused'' 1)) 0 ''default'' ''http://example.org''
        (AsyncSessionManager_init 50 2 100 0)) \<noteq> Some 3"
  by (simp add: make_request_def Let_def async_get_session_def AsyncSessionManager_init_def
      async_calculate_adaptive_retries_def request_loop.simps try_request_def attempts_made_def)

text \<open>
  Claim C3, amended. On a manager whose semaphore admits the call (\<^verbatim>\<open>concurrent_limit\<close>
  at least 1), with \<^verbatim>\<open>max_retries = 2\<close> and a transport that raises a timeout or another
  \<^verbatim>\<open>Exception\<close> on every attempt, \<^verbatim>\<open>make_request\<close> returns control after one attempt
  more than the adaptive retry count: 2 attempts while the global failure rate is below
  0.1, 3 attempts while it is at least 0.1 and below 0.3, and 5 attempts from 0.3 on.
  It ends by raising the exception of its last attempt.
\<close>

theorem make_request_attempts_when_failing:
  assumes "always_fails transport" and "max_retries m = 2" and "0 < concurrent_limit m"
  shows "\<exists>out f. make_request new transport now sid url m = Some out
           \<and> attempts_made out
               = (if global_failure_rate m < 1 / 10 then 2
                  else if global_failure_rate m < 3 / 10 then 3
                  else 5)
           \<and> attempt_failure (transport (attempts_made out - 1)) = Some f
           \<and> fst out = Inl (failure_error f)"
proof -
  have r: "async_calculate_adaptive_retries m
             = (if global_failure_rate m < 1 / 10 then 1
                else if global_failure_rate m < 3 / 10 then 2
                else 4)"
    using assms(2) by (simp add: async_calculate_adaptive_retries_def)
  then have "0 \<le> async_calculate_adaptive_retries m" by simp
  from make_request_exhausts [OF assms(1) this assms(3), of new now sid url]
  obtain out f where o: "make_request new transport now sid url m = Some out"
      "attempts_made out = nat (async_calculate_adaptive_retries m) + 1"
      "attempt_failure (transport (attempts_made out - 1)) = Some f"
      "fst out = Inl (failure_error f)"
    by blast
  have "attempts_made out
          = (if global_failure_rate m < 1 / 10 then 2
             else if global_failure_rate m < 3 / 10 then 3
             else 5)"
    using o(2) r by simp
  then show ?thesis using o(1,3,4) by blast
qed

text \<open>
  A transport whose every request raises, with the number of the attempt in the
  message, on a manager whose failure rate is 0.2: three attempts, and the exception
  raised is the third one.
\<close>

theorem make_request_attempts_when_failing_witness:
  "always_fails (\<lambda>n. RequestFails (Fails (if n = 2 then ''third'' else ''earlier'') 1))
   \<and> max_retries ((AsyncSessionManager_init 50 2 100 0)\<lparr>global_failure_rate := 1 / 5\<rparr>) = 2
   \<and> 0 < concurrent_limit ((AsyncSessionManager_init 50 2 100 0)\<lparr>global_failure_rate := 1 / 5\<rparr>)
   \<and> (\<exists>out. make_request (\<lparr>close_raises = None, closed = False\<rparr>, \<lparr>close_raises = None, closed = False\<rparr>)
          (\<lambda>n. RequestFails (Fails (if n = 2 then ''third'' else ''earlier'') 1))
          0 ''default'' ''http://example.org''
          ((AsyncSessionManager_init 50 2 100 0)\<lparr>global_failure_rate := 1 / 5\<rparr>) = Some out
        \<and> attempts_made out = 3
        \<and> fst out = Inl (Exception ''third''))"
  using make_request_attempts_when_failing
    [of "\<lambda>n. RequestFails (Fails (if n = 2 then ''third'' else ''earlier'') 1)"
        "(AsyncSessionManager_init 50 2 100 0)\<lparr>global_failure_rate := 1 / 5\<rparr>"
        "(\<lparr>close_raises = None, closed = False\<rparr>, \<lparr>close_raises = None, closed = False\<rparr>)"
        0 "''default''" "''http://example.org''"]
  by (auto simp: always_fails_def AsyncSessionManager_init_def)

text \<open>
  Without retries left to try, the loop is not entered and the call raises with the
  formatted message; a cancelled request is not retried.
\<close>

lemma make_request_no_attempt:
  "map_option (\<lambda>out. (fst out, attempts_made out))
     (make_request (\<lparr>close_raises = None, closed = False\<rparr>, \<lparr>close_raises = None, closed = False\<rparr>)
        (\<lambda>n. RequestFails TimesOut) 0 ''default'' ''http://example.org''
        ((AsyncSessionManager_init 50 (- 12) 100 0)\<lparr>global_failure_rate := 1 / 5\<rparr>))
   = Some (Inl (Exception ''Max retries (-12) exceeded for http://example.org''), 0)"
  by (simp add: make_request_def Let_def async_get_session_def AsyncSessionManager_init_def
      async_calculate_adaptive_retries_def request_loop.simps attempts_made_def str_int_def
      str_nat.simps digit_char_def)

lemma make_request_cancelled:
  "map_option (\<lambda>out. (fst out, attempts_made out))
     (make_request (\<lparr>close_raises = None, closed = False\<rparr>, \<lparr>close_raises = None, closed = False\<rparr>)
        (\<lambda>n. RequestFails Cancelled) 0 ''default'' ''http://example.org''
        (AsyncSessionManager_init 50 2 100 0))
   = Some (Inl CancelledError, 1)"
  by (simp add: make_request_def Let_def async_get_session_def AsyncSessionManager_init_def
      async_calculate_adaptive_retries_def request_loop.simps try_request_def attempts_made_def)

text \<open>
  Claim C1 on the async manager. \<^verbatim>\<open>_monitor_failure\<close> counts a failure without counting
  a request. One answered request followed by two requests that fail on every attempt
  leaves one request and two failures on record: all three calls return, and the global
  failure rate after the third is 2.
\<close>

theorem async_failure_rate_exceeds_one:
  "map_option (\<lambda>out. global_failure_rate (manager_after out))
     (Option.bind
        (make_request (\<lparr>close_raises = None, closed = False\<rparr>, \<lparr>close_raises = None, closed = False\<rparr>)
           (\<lambda>n. Responds 200 ''http://example.org/a'' 1) 0 ''default'' ''http://example.org/a''
           (AsyncSessionManager_init 50 3 100 0))
        (\<lambda>first. Option.bind
           (make_request (\<lparr>close_raises = None, closed = False\<rparr>, \<lparr>close_raises = None, closed = False\<rparr>)
              (\<lambda>n. RequestFails (Fails ''connection refused'' 15)) 10 ''default''
              ''http://example.org/b'' (manager_after first))
           (\<lambda>second.
              make_request (\<lparr>close_raises = None, closed = False\<rparr>, \<lparr>close_raises = None, closed = False\<rparr>)
                (\<lambda>n. RequestFails (Fails ''connection refused'' 30)) 20 ''default''
                ''http://example.org/c'' (manager_after second))))
   = Some 2"
  by (simp add: make_request_def Let_def async_get_session_def AsyncSessionManager_init_def
      async_calculate_adaptive_retries_def request_loop.simps try_request_def manager_after_def
      async_monitor_response_def monitor_failure_def async_update_global_failure_rate_def
      stat_of_def default_stat_def)

text \<open>The same, by the monitoring calls alone.\<close>

lemma async_failure_rate_events:
  "global_failure_rate (foldl apply_async_event (AsyncSessionManager_init 50 3 100 0)
      [AsyncMonitorResponse 1 200 ''default'' (1 / 2),
       MonitorFailure 2 ''default'' ''refused'',
       MonitorFailure 3 ''default'' ''refused'']) = 2"
  by (simp add: AsyncSessionManager_init_def async_monitor_response_def monitor_failure_def
      async_update_global_failure_rate_def stat_of_def default_stat_def Let_def)


text \<open>
  The synchronous manager counts a failure only together with its request, so its
  failure rate stays between 0 and 1 after every run of monitoring events.
\<close>

lemma list_all_update:
  "list_all P al \<Longrightarrow> P (k, v) \<Longrightarrow> list_all P (AList.update k v al)"
  by (induction al) auto

lemma stat_of_ok:
  assumes "list_all (\<lambda>(k, st). stat_ok st) table"
  shows "stat_ok (stat_of now table sid)"
proof (cases "map_of table sid")
  case None
  then show ?thesis by (simp add: stat_of_def default_stat_def stat_ok_def)
next
  case (Some st)
  then have "(sid, st) \<in> set table" by (rule map_of_SomeD)
  with assms have "stat_ok st" by (auto simp: list_all_iff)
  with Some show ?thesis by (simp add: stat_of_def)
qed

lemma totals_ok:
  assumes "list_all (\<lambda>(k, st). stat_ok st) table"
  shows "0 \<le> sum_list (map (\<lambda>(k, st). failures st) table)
       \<and> sum_list (map (\<lambda>(k, st). failures st) table)
           \<le> sum_list (map (\<lambda>(k, st). requests_made st) table)"
  using assms by (induction table) (auto simp: stat_ok_def)

lemma rate_in_unit:
  assumes "0 \<le> (f :: int)" and "f \<le> r" and "0 < r"
  shows "0 \<le> (of_int f / of_int r :: rat) \<and> (of_int f / of_int r :: rat) \<le> 1"
  using assms by simp

lemma sync_inv_update: "sync_inv m \<Longrightarrow> sync_inv (update_global_failure_rate m)"
  using totals_ok [of "session_stats m"]
  by (auto simp: sync_inv_def update_global_failure_rate_def Let_def)

lemma sync_inv_monitor: "sync_inv m \<Longrightarrow> sync_inv (monitor_response now r sid m)"
proof -
  assume inv: "sync_inv m"
  then have ok0: "stat_ok (stat_of now (session_stats m) sid)"
    by (simp add: sync_inv_def stat_of_ok)
  define st3 where "st3 = (let st0 = stat_of now (session_stats m) sid;
          st1 = st0\<lparr>requests_made := requests_made st0 + 1\<rparr>;
          st2 = (case elapsed r of
                   None \<Rightarrow> st1
                 | Some response_time \<Rightarrow>
                     if avg_response_time st1 = 0 then st1\<lparr>avg_response_time := response_time\<rparr>
                     else st1\<lparr>avg_response_time :=
                                7 / 10 * avg_response_time st1 + 3 / 10 * response_time\<rparr>)
      in (if status_code r \<ge> 400
                 then st2\<lparr>failures := failures st2 + 1,
                          last_failure_time := Some now,
                          consecutive_failures := consecutive_failures st2 + 1\<rparr>
                 else st2\<lparr>consecutive_failures := 0\<rparr>))"
  have ok3: "stat_ok st3"
    using ok0 by (auto simp: st3_def stat_ok_def Let_def split: option.splits)
  define m1 where "m1 = m\<lparr>session_stats := AList.update sid st3 (session_stats m)\<rparr>"
  have inv1: "sync_inv m1"
    using inv ok3 by (simp add: m1_def sync_inv_def list_all_update)
  have eq: "monitor_response now r sid m =
     (if now - last_stats_update m1 > 60
         then (update_global_failure_rate m1)\<lparr>last_stats_update := now\<rparr>
         else m1)"
    by (simp add: monitor_response_def m1_def st3_def Let_def)
  have "sync_inv ((update_global_failure_rate m1)\<lparr>last_stats_update := now\<rparr>)"
    using sync_inv_update [OF inv1] by (simp add: sync_inv_def)
  then show ?thesis using inv1 eq by simp
qed

lemma sync_inv_init: "sync_inv (SessionManager_init c r now)"
  by (simp add: sync_inv_def SessionManager_init_def)

lemma sync_inv_event: "sync_inv m \<Longrightarrow> sync_inv (apply_sync_event m e)"
  by (cases e) (simp_all add: sync_inv_monitor sync_inv_update get_health_status_def)

lemma sync_inv_run: "sync_inv m \<Longrightarrow> sync_inv (foldl apply_sync_event m es)"
  by (induction es arbitrary: m) (simp_all add: sync_inv_event)

lemma sync_failure_rate_in_unit:
  "0 \<le> global_failure_rate (foldl apply_sync_event (SessionManager_init c r now) es)
   \<and> global_failure_rate (foldl apply_sync_event (SessionManager_init c r now) es) \<le> 1"
  using sync_inv_run [OF sync_inv_init, of c r now es] by (simp add: sync_inv_def)

lemma failure_rate_zero_without_requests:
  "global_failure_rate (SessionManager_init c r now) = 0
   \<and> global_failure_rate (get_health_status (SessionManager_init c r now)) = 0
   \<and> global_failure_rate (AsyncSessionManager_init c r l now) = 0
   \<and> global_failure_rate (async_update_global_failure_rate (AsyncSessionManager_init c r l now)) = 0"
  by (simp add: SessionManager_init_def AsyncSessionManager_init_def get_health_status_def
      update_global_failure_rate_def async_update_global_failure_rate_def)


text \<open>
  Claim C5 on the synchronous manager. Its \<^verbatim>\<open>close_all\<close> calls \<^verbatim>\<open>session.close()\<close>
  with no handler around it: when the close of a session raises, \<^verbatim>\<open>close_all\<close> raises
  the same exception and the dictionary of sessions is left as it was.
\<close>

theorem sync_close_all_raises:
  "close_all (get_session \<lparr>close_raises = Some ''connection reset'', closed = False\<rparr> 0 ''default''
                (SessionManager_init 10 3 0))
   = (Some (Exception ''connection reset''),
      get_session \<lparr>close_raises = Some ''connection reset'', closed = False\<rparr> 0 ''default''
                (SessionManager_init 10 3 0))"
  by (simp add: close_all_def get_session_def SessionManager_init_def close_handle_def)

text \<open>
  The async manager swallows the exception of every close, so its \<^verbatim>\<open>close_all\<close> never
  raises, the first time or the second. On the synchronous manager a second call after
  a call that did not raise does not raise either.
\<close>

lemma close_each_quietly_silent: "fst (close_each_quietly hs) = None"
  by (induction hs) (auto simp: close_quietly_def split: sum.splits prod.splits)

lemma async_close_all_silent:
  "fst (async_close_all m) = None
   \<and> sessions (snd (async_close_all m)) = []
   \<and> connector_cache (snd (async_close_all m)) = []"
proof -
  obtain hs where hs: "close_each_quietly (sessions m) = (None, hs)"
    using close_each_quietly_silent [of "sessions m"]
    by (cases "close_each_quietly (sessions m)") auto
  obtain cs where cs: "close_each_quietly (connector_cache m) = (None, cs)"
    using close_each_quietly_silent [of "connector_cache m"]
    by (cases "close_each_quietly (connector_cache m)") auto
  show ?thesis by (simp add: async_close_all_def hs cs)
qed

lemma async_close_all_twice: "fst (async_close_all (snd (async_close_all m))) = None"
  by (simp add: async_close_all_silent)

lemma close_all_twice:
  assumes "fst (close_all m) = None"
  shows "fst (close_all (snd (close_all m))) = None"
proof -
  obtain r hs where c: "close_each (sessions m) = (r, hs)"
    by (cases "close_each (sessions m)") auto
  with assms have "r = None"
    by (cases r) (simp_all add: close_all_def)
  with c have "sessions (snd (close_all m)) = []"
    by (simp add: close_all_def)
  then show ?thesis by (simp add: close_all_def)
qed

lemma async_close_all_swallows:
  "async_close_all ((AsyncSessionManager_init 50 3 100 0)
      \<lparr>sessions := [(''default'', \<lparr>close_raises = Some ''connection reset'', closed = False\<rparr>)],
       connector_cache := [(''default'', \<lparr>close_raises = None, closed = False\<rparr>)]\<rparr>)
   = (None, AsyncSessionManager_init 50 3 100 0)"
  by (simp add: async_close_all_def AsyncSessionManager_init_def close_quietly_def
      close_handle_def)

section \<open>Properties of the batch fan-out\<close>


lemma scrape_multiple_eq:
  "scrape_multiple env urls = Inr (map (\<lambda>(i, url). own_result env i url) (enumerate 0 urls))"
proof (cases "urls = []")
  case True
  then show ?thesis by (simp add: scrape_multiple_def)
next
  case False
  have "map (\<lambda>(i, result). case result of
                Raised (ExceptionWith msg) \<Rightarrow> Failure (urls ! i) msg
              | Raised CancelledTask \<Rightarrow> RawException CancelledTask
              | Returned r \<Rightarrow> r)
          (enumerate 0 (map (\<lambda>(i, url). scrape env i url) (enumerate 0 urls)))
        = map (\<lambda>(i, url). own_result env i url) (enumerate 0 urls)"
    by (rule nth_equalityI)
       (auto simp: nth_enumerate_eq scrape_def scrape_with_requests_def own_result_def
          split: task_outcome.splits task_exception.splits)
  then show ?thesis using False by (simp add: scrape_multiple_def gather_def Let_def)
qed



text \<open>Two batches whose tasks agree at a position agree in the entry at that position.\<close>

lemma scrape_multiple_independent:
  assumes "scrape_multiple env urls = Inr rs" and "scrape_multiple env' urls = Inr rs'"
    and "i < length urls" and "rate_limit env i = rate_limit env' i"
    and "fetch env i (urls ! i) = fetch env' i (urls ! i)"
  shows "rs ! i = rs' ! i"
proof -
  have "rs ! i = own_result env i (urls ! i)"
    using assms(1,3) by (auto simp: scrape_multiple_eq nth_enumerate_eq)
  moreover have "rs' ! i = own_result env' i (urls ! i)"
    using assms(2,3) by (auto simp: scrape_multiple_eq nth_enumerate_eq)
  moreover have "own_result env i (urls ! i) = own_result env' i (urls ! i)"
    by (simp add: own_result_def assms(4,5)
        split: task_outcome.splits task_exception.splits)
  ultimately show ?thesis by simp
qed


end
